theory Spec2Isabelle
  imports Main "HOL-Library.Multiset"
begin

text \<open>
  Package \<^verbatim>\<open>logsort\<close> sorts the lines of a log file by a timestamp that a handler of
  the caller reads from each line. The definitions below follow \<^verbatim>\<open>logsort.go\<close>
  statement by statement. The repository holds a second copy of \<^verbatim>\<open>SortByOption\<close>,
  without the \<^verbatim>\<open>content\<close> field; it is modelled after the first and compared
  with it.
\<close>

section \<open>Package logsort: data model\<close>

text \<open>
  Byte slices (\<^verbatim>\<open>[]byte\<close>) are lists of characters; a character of HOL is one byte.
  A nil slice is distinguished from an empty one only where the code does so, namely for
  \<^verbatim>\<open>lineUnit.content\<close>, which is therefore an option.
\<close>

type_synonym bytes = "char list"

definition NL :: char where
  "NL = CHR 0x0A"

definition CR :: char where
  "CR = CHR 0x0D"

text \<open>\<^verbatim>\<open>type Action int\<close> with the constants \<^verbatim>\<open>NOP = iota; SKIP; STOP\<close>. A handler
  may return any integer; the code only compares with \<^verbatim>\<open>SKIP\<close> and \<^verbatim>\<open>STOP\<close>.\<close>

type_synonym Action = int

definition NOP :: Action where
  "NOP = 0"

definition SKIP :: Action where
  "SKIP = 1"

definition STOP :: Action where
  "STOP = 2"

text \<open>Arguments of a \<^verbatim>\<open>errors.Wrapf\<close> format string.\<close>

datatype fmtarg = S string | D nat

text \<open>
  Go's \<^verbatim>\<open>error\<close> values. \<open>ErrNeedTimeHandler\<close> and \<open>ErrSameSRCAndDST\<close> are the two
  package variables; \<open>ErrTooLong\<close> is \<^verbatim>\<open>bufio.ErrTooLong\<close>, \<open>ErrEOF\<close> is \<^verbatim>\<open>io.EOF\<close>;
  \<open>ErrOther\<close> stands for any error made elsewhere (the operating system, the gzip
  reader, the caller's handler); \<open>Wrap\<close> and \<open>Wrapf\<close> are \<^verbatim>\<open>errors.Wrap\<close> and
  \<^verbatim>\<open>errors.Wrapf\<close>. A nil error is \<open>None\<close> of \<open>error option\<close>.
\<close>

datatype error =
    ErrNeedTimeHandler
  | ErrSameSRCAndDST
  | ErrTooLong
  | ErrEOF
  | ErrOther string
  | Wrap error string
  | Wrapf error string "fmtarg list"

text \<open>\<^verbatim>\<open>type TimeHandler = func([]byte) (int64, Action, error)\<close>. The timestamp is only
  ever compared, so the 64-bit integer is read as the integer it denotes.\<close>

type_synonym TimeHandler = "bytes \<Rightarrow> int \<times> Action \<times> error option"

text \<open>\<^verbatim>\<open>type lineUnit struct\<close>. The field \<^verbatim>\<open>length\<close> is named \<open>length_u\<close> here.\<close>

record lineUnit =
  offset :: nat
  length_u :: nat
  timestamp :: int
  content :: "bytes option"

text \<open>\<^verbatim>\<open>type Option struct\<close>; a nil \<^verbatim>\<open>GetTime\<close> is \<open>None\<close>.\<close>

record Option_t =
  SrcFile :: string
  DstFile :: string
  SrcGzip :: bool
  DstGzip :: bool
  GetTime :: "TimeHandler option"

type_synonym linesSort = "lineUnit list"

text \<open>The three methods of \<^verbatim>\<open>sort.Interface\<close> on \<^verbatim>\<open>linesSort\<close>.\<close>

definition Len :: "linesSort \<Rightarrow> nat" where
  "Len l = length l"

definition Swap :: "linesSort \<Rightarrow> nat \<Rightarrow> nat \<Rightarrow> linesSort" where
  "Swap l i j = l[i := l ! j, j := l ! i]"

definition Less :: "linesSort \<Rightarrow> nat \<Rightarrow> nat \<Rightarrow> bool" where
  "Less l i j = (timestamp (l ! i) < timestamp (l ! j))"

section \<open>The world outside the package\<close>

text \<open>
  \<open>resolve\<close> gives the file that a path names: two spellings of a path, or a path and
  a link to it, resolve to one file. \<open>files\<close> gives the bytes of a file, if there is
  one. \<open>events\<close> is the trace of the calls that open, create or read at a position, in
  the order they are made.
\<close>

datatype event =
    EvOpen string
  | EvCreate string
  | EvReadAt string nat nat

record world =
  resolve :: "string \<Rightarrow> string"
  files :: "string \<Rightarrow> bytes option"
  events :: "event list"

text \<open>
  What the package does not decide is a parameter:
  \<^item> \<open>sort_Sort\<close>: the result of \<^verbatim>\<open>sort.Sort\<close> on a \<^verbatim>\<open>linesSort\<close>;
  \<^item> \<open>gzip_NewReader\<close>: on the bytes of a file, either the error of
    \<^verbatim>\<open>gzip.NewReader\<close>, or the bytes the reader then delivers together with the error
    that ends them (\<open>None\<close> for a clean end of file);
  \<^item> \<open>gzip_NewWriter\<close>: the bytes of the file once a gzip writer that was given the
    argument has been closed;
  \<^item> \<open>gzip_Flushed\<close>: the bytes a gzip writer has passed to its file when it has been
    given the argument and is not yet closed;
  \<^item> \<open>create_err\<close>: the error of \<^verbatim>\<open>os.Create\<close> on a path, if any;
  \<^item> \<open>write_err\<close>, \<open>flush_err\<close>: the error of the \<open>n\<close>-th call of
    \<^verbatim>\<open>writer.Write\<close> and of \<^verbatim>\<open>writer.Flush\<close>, if any.
\<close>

record env =
  sort_Sort :: "linesSort \<Rightarrow> linesSort"
  gzip_NewReader :: "bytes \<Rightarrow> error + (bytes \<times> error option)"
  gzip_NewWriter :: "bytes \<Rightarrow> bytes"
  gzip_Flushed :: "bytes \<Rightarrow> bytes"
  create_err :: "string \<Rightarrow> error option"
  write_err :: "nat \<Rightarrow> error option"
  flush_err :: "nat \<Rightarrow> error option"

text \<open>\<^verbatim>\<open>os.Open\<close>: fails when the path names no file; otherwise the result is the bytes
  the file holds now, which are those the first pass scans.\<close>

definition os_Open :: "world \<Rightarrow> string \<Rightarrow> (error + bytes) \<times> world" where
  "os_Open w name =
     (case files w (resolve w name) of
        None \<Rightarrow> (Inl (ErrOther name), w\<lparr>events := events w @ [EvOpen name]\<rparr>)
      | Some data \<Rightarrow> (Inr data, w\<lparr>events := events w @ [EvOpen name]\<rparr>))"

text \<open>\<^verbatim>\<open>os.Create\<close>: creates the file that the path names, or truncates it.\<close>

definition os_Create :: "env \<Rightarrow> world \<Rightarrow> string \<Rightarrow> error option \<times> world" where
  "os_Create e w name =
     (case create_err e name of
        Some err \<Rightarrow> (Some err, w\<lparr>events := events w @ [EvCreate name]\<rparr>)
      | None \<Rightarrow> (None, w\<lparr>files := (files w)(resolve w name \<mapsto> []),
                           events := events w @ [EvCreate name]\<rparr>))"

text \<open>\<^verbatim>\<open>File.ReadAt(b, off)\<close> with \<open>n = len(b)\<close>: an error whenever fewer than \<open>n\<close>
  bytes are there.\<close>

definition ReadAt :: "bytes \<Rightarrow> nat \<Rightarrow> nat \<Rightarrow> error + bytes" where
  "ReadAt fd n off =
     (if off + n \<le> length fd then Inr (take n (drop off fd)) else Inl ErrEOF)"

subsection \<open>bufio.Scanner with the default split function\<close>

text \<open>
  \<open>buf\<close> holds the bytes the reader has yet to deliver and \<open>rdErr\<close> the error that ends
  them; \<open>token\<close> and \<open>err\<close> are what \<^verbatim>\<open>Bytes()\<close> and \<^verbatim>\<open>Err()\<close> return.
  \<^verbatim>\<open>ScanLines\<close> cuts at the first newline, or at the end of the data, and
  \<^verbatim>\<open>dropCR\<close> removes one trailing carriage return. A line that does not fit the
  buffer of \<^verbatim>\<open>MaxScanTokenSize\<close> bytes ends the scan with \<^verbatim>\<open>ErrTooLong\<close>.
\<close>

record Scanner =
  buf :: bytes
  rdErr :: "error option"
  token :: bytes
  err :: "error option"

definition MaxScanTokenSize :: nat where
  "MaxScanTokenSize = 64 * 1024"

definition dropCR :: "bytes \<Rightarrow> bytes" where
  "dropCR data = (if data \<noteq> [] \<and> last data = CR then butlast data else data)"

definition NewScanner :: "bytes \<Rightarrow> error option \<Rightarrow> Scanner" where
  "NewScanner data e = \<lparr>buf = data, rdErr = e, token = [], err = None\<rparr>"

definition Scan :: "Scanner \<Rightarrow> bool \<times> Scanner" where
  "Scan s =
     (let seg = takeWhile (\<lambda>c. c \<noteq> NL) (buf s) in
      if buf s = [] then (False, s\<lparr>token := [], err := rdErr s\<rparr>)
      else if MaxScanTokenSize \<le> length seg
        then (False, s\<lparr>token := [], err := Some ErrTooLong\<rparr>)
      else (True, s\<lparr>buf := drop (Suc (length seg)) (buf s), token := dropCR seg\<rparr>))"

section \<open>SortByOption\<close>

subsection \<open>First pass: the index\<close>

text \<open>The \<^verbatim>\<open>lineUnit\<close> built for a line that is neither skipped nor stops the scan.\<close>

definition newLineUnit :: "Option_t \<Rightarrow> nat \<Rightarrow> bytes \<Rightarrow> int \<Rightarrow> lineUnit" where
  "newLineUnit option off line tm =
     (let l = \<lparr>offset = off, length_u = length line, timestamp = tm, content = None\<rparr>
      in if SrcGzip option then l\<lparr>content := Some line\<rparr> else l)"

text \<open>
  The \<^verbatim>\<open>for\<close> loop over \<^verbatim>\<open>scanner.Scan()\<close>. \<open>Inl e\<close> is a \<^verbatim>\<open>return e\<close> from inside
  the loop (where \<open>e\<close> may be nil), \<open>Inr lines\<close> is the \<^verbatim>\<open>break\<close> at end of file.
\<close>

function scanLoop ::
  "Option_t \<Rightarrow> TimeHandler \<Rightarrow> Scanner \<Rightarrow> nat \<Rightarrow> linesSort \<Rightarrow> error option + linesSort"
where
  "scanLoop option getTime scanner off lines =
     (if \<not> fst (Scan scanner) then
        (case err (snd (Scan scanner)) of
           Some e \<Rightarrow> Inl (Some (Wrap e ''scanner err''))
         | None \<Rightarrow> Inr lines)
      else
        (let line = token (snd (Scan scanner));
             tm = fst (getTime line);
             action = fst (snd (getTime line));
             e = snd (snd (getTime line))
         in if action = SKIP then
              scanLoop option getTime (snd (Scan scanner)) (off + length line) lines
            else if action = STOP then Inl e
            else scanLoop option getTime (snd (Scan scanner)) (off + length line + 1)
                   (lines @ [newLineUnit option off line tm])))"
  by pat_completeness auto
termination
  by (relation "measure (\<lambda>(option, getTime, scanner, off, lines). length (buf scanner))")
     (auto simp: Scan_def Let_def split: if_splits)

declare scanLoop.simps [simp del]

subsection \<open>Second pass: the destination\<close>

text \<open>The bytes of one output line, and the positioned read made for them, if any.\<close>

definition getLine ::
  "Option_t \<Rightarrow> bytes \<Rightarrow> lineUnit \<Rightarrow> (error + bytes) \<times> event list"
where
  "getLine option srcFd l =
     (case content l of
        Some c \<Rightarrow> (Inr (c @ [NL]), [])
      | None \<Rightarrow>
          (case ReadAt srcFd (length_u l + 1) (offset l) of
             Inl e \<Rightarrow>
               (Inl (Wrapf e ''fd %s read offset %d'' [S (SrcFile option), D (offset l)]),
                [EvReadAt (SrcFile option) (offset l) (length_u l + 1)])
           | Inr line \<Rightarrow>
               (Inr line, [EvReadAt (SrcFile option) (offset l) (length_u l + 1)])))"

text \<open>
  The \<^verbatim>\<open>for _, l := range lines\<close> loop. \<open>n\<close> counts the lines written so far, \<open>out\<close>
  is what the writer has been given and has flushed, \<open>evs\<close> the reads made. \<open>srcFd\<close>
  gives the bytes of the source file at the time when \<open>out\<close> has been written.
\<close>

fun writeLoop ::
  "env \<Rightarrow> Option_t \<Rightarrow> (bytes \<Rightarrow> bytes) \<Rightarrow> linesSort \<Rightarrow> nat \<Rightarrow> bytes \<Rightarrow> event list
     \<Rightarrow> error option \<times> bytes \<times> event list"
where
  "writeLoop e option srcFd [] n out evs = (None, out, evs)"
| "writeLoop e option srcFd (l # ls) n out evs =
     (case getLine option (srcFd out) l of
        (Inl er, ev) \<Rightarrow> (Some er, out, evs @ ev)
      | (Inr line, ev) \<Rightarrow>
          (case write_err e n of
             Some er \<Rightarrow>
               (Some (Wrapf er ''writer %s write'' [S (SrcFile option)]), out, evs @ ev)
           | None \<Rightarrow>
               (case flush_err e n of
                  Some er \<Rightarrow>
                    (Some (Wrapf er ''writer %s flush'' [S (SrcFile option)]), out, evs @ ev)
                | None \<Rightarrow> writeLoop e option srcFd ls (Suc n) (out @ line) (evs @ ev))))"

text \<open>What the destination file holds once the deferred \<^verbatim>\<open>Close\<close> calls have run.\<close>

definition closeDst :: "env \<Rightarrow> Option_t \<Rightarrow> bytes \<Rightarrow> bytes" where
  "closeDst e option out = (if DstGzip option then gzip_NewWriter e out else out)"

text \<open>
  The bytes of the source file during the second pass. They are the bytes the file had
  when it was opened, unless the destination path names the same file: then
  \<^verbatim>\<open>os.Create\<close> has truncated it, and it holds what has reached the destination so far
  (nothing before the first write, since a gzip writer writes its header with the first
  data).
\<close>

definition srcNow :: "env \<Rightarrow> Option_t \<Rightarrow> world \<Rightarrow> bytes \<Rightarrow> bytes \<Rightarrow> bytes" where
  "srcNow e option w data out =
     (if resolve w (SrcFile option) = resolve w (DstFile option)
      then (if DstGzip option \<and> out \<noteq> [] then gzip_Flushed e out else out)
      else data)"

subsection \<open>The function\<close>

definition openScanner :: "env \<Rightarrow> Option_t \<Rightarrow> bytes \<Rightarrow> error + Scanner" where
  "openScanner e option srcFd =
     (if SrcGzip option then
        (case gzip_NewReader e srcFd of
           Inl er \<Rightarrow> Inl (Wrap er ''new reader'')
         | Inr (data, rerr) \<Rightarrow> Inr (NewScanner data rerr))
      else Inr (NewScanner srcFd None))"

definition SortByOption :: "env \<Rightarrow> Option_t \<Rightarrow> world \<Rightarrow> error option \<times> world" where
  "SortByOption e option w =
     (case GetTime option of
        None \<Rightarrow> (Some ErrNeedTimeHandler, w)
      | Some getTime \<Rightarrow>
          if SrcFile option = DstFile option then (Some ErrSameSRCAndDST, w)
          else
            (case os_Open w (SrcFile option) of
               (Inl er, w1) \<Rightarrow> (Some er, w1)
             | (Inr srcFd, w1) \<Rightarrow>
                 (case openScanner e option srcFd of
                    Inl er \<Rightarrow> (Some er, w1)
                  | Inr scanner \<Rightarrow>
                      (case scanLoop option getTime scanner 0 [] of
                         Inl er \<Rightarrow> (er, w1)
                       | Inr lines \<Rightarrow>
                           (case os_Create e w1 (DstFile option) of
                              (Some er, w2) \<Rightarrow> (Some er, w2)
                            | (None, w2) \<Rightarrow>
                                (case writeLoop e option (srcNow e option w srcFd)
                                        (sort_Sort e lines) 0 [] [] of
                                   (r, out, evs) \<Rightarrow>
                                     (r, w2\<lparr>files := (files w2)(resolve w (DstFile option) \<mapsto>
                                                closeDst e option out),
                                            events := events w2 @ evs\<rparr>)))))))"

definition Sort :: "env \<Rightarrow> string \<Rightarrow> string \<Rightarrow> TimeHandler option \<Rightarrow> world
  \<Rightarrow> error option \<times> world" where
  "Sort e srcFile dstFile getTime w =
     SortByOption e
       \<lparr>SrcFile = srcFile, DstFile = dstFile, SrcGzip = False, DstGzip = False,
        GetTime = getTime\<rparr> w"

section \<open>Notions used to state the properties\<close>

text \<open>The three components of what a handler returns for a line.\<close>

definition timeOf :: "TimeHandler \<Rightarrow> bytes \<Rightarrow> int" where
  "timeOf getTime line = fst (getTime line)"

definition actionOf :: "TimeHandler \<Rightarrow> bytes \<Rightarrow> Action" where
  "actionOf getTime line = fst (snd (getTime line))"

definition errOf :: "TimeHandler \<Rightarrow> bytes \<Rightarrow> error option" where
  "errOf getTime line = snd (snd (getTime line))"

text \<open>The lines a scanner delivers until \<^verbatim>\<open>Scan\<close> returns false, and the error
  \<^verbatim>\<open>Err()\<close> reports then.\<close>

function scanTokens :: "Scanner \<Rightarrow> bytes list" where
  "scanTokens s =
     (if fst (Scan s) then token (snd (Scan s)) # scanTokens (snd (Scan s)) else [])"
  by pat_completeness auto
termination
  by (relation "measure (\<lambda>s. length (buf s))")
     (auto simp: Scan_def Let_def split: if_splits)

function scanErr :: "Scanner \<Rightarrow> error option" where
  "scanErr s = (if fst (Scan s) then scanErr (snd (Scan s)) else err (snd (Scan s)))"
  by pat_completeness auto
termination
  by (relation "measure (\<lambda>s. length (buf s))")
     (auto simp: Scan_def Let_def split: if_splits)

declare scanTokens.simps [simp del] scanErr.simps [simp del]

text \<open>The first pass as a recursion over the lines delivered: \<open>toks\<close> are the lines
  still to come and \<open>fin\<close> the error reported after the last of them.\<close>

fun indexLoop ::
  "Option_t \<Rightarrow> TimeHandler \<Rightarrow> bytes list \<Rightarrow> error option \<Rightarrow> nat \<Rightarrow> linesSort
     \<Rightarrow> error option + linesSort"
where
  "indexLoop option getTime [] fin off lines =
     (case fin of Some e \<Rightarrow> Inl (Some (Wrap e ''scanner err'')) | None \<Rightarrow> Inr lines)"
| "indexLoop option getTime (line # toks) fin off lines =
     (if actionOf getTime line = SKIP then
        indexLoop option getTime toks fin (off + length line) lines
      else if actionOf getTime line = STOP then Inl (errOf getTime line)
      else indexLoop option getTime toks fin (off + length line + 1)
             (lines @ [newLineUnit option off line (timeOf getTime line)]))"

text \<open>The index of lines none of which stops the scan, the first of them at \<open>off\<close>.\<close>

fun indexOf :: "Option_t \<Rightarrow> TimeHandler \<Rightarrow> bytes list \<Rightarrow> nat \<Rightarrow> linesSort" where
  "indexOf option getTime [] off = []"
| "indexOf option getTime (line # toks) off =
     (if actionOf getTime line = SKIP then indexOf option getTime toks (off + length line)
      else newLineUnit option off line (timeOf getTime line)
             # indexOf option getTime toks (off + length line + 1))"

text \<open>The bytes the second pass writes for a \<^verbatim>\<open>lineUnit\<close>, when it gets them.\<close>

definition lineOut :: "Option_t \<Rightarrow> bytes \<Rightarrow> lineUnit \<Rightarrow> bytes" where
  "lineOut option srcFd l = (case fst (getLine option srcFd l) of Inr b \<Rightarrow> b | Inl e \<Rightarrow> [])"

text \<open>A file made of lines, each followed by one newline.\<close>

definition joinLines :: "bytes list \<Rightarrow> bytes" where
  "joinLines ls = concat (map (\<lambda>l. l @ [NL]) ls)"

text \<open>A line that the scanner returns as it stands in the file: it holds no newline,
  does not end with a carriage return and fits the scanner's buffer.\<close>

definition plainLine :: "bytes \<Rightarrow> bool" where
  "plainLine l \<longleftrightarrow> NL \<notin> set l \<and> dropCR l = l \<and> length l < MaxScanTokenSize"

text \<open>A line that enters the index: the handler neither skips it nor stops at it.\<close>

definition kept :: "TimeHandler \<Rightarrow> bytes \<Rightarrow> bool" where
  "kept getTime line \<longleftrightarrow> actionOf getTime line \<noteq> SKIP \<and> actionOf getTime line \<noteq> STOP"

text \<open>The bytes a \<^verbatim>\<open>lineUnit\<close> stands for: its content when it has one, otherwise the
  bytes of the source it addresses.\<close>

definition lineBytes :: "bytes \<Rightarrow> lineUnit \<Rightarrow> bytes" where
  "lineBytes srcFd l =
     (case content l of Some c \<Rightarrow> c | None \<Rightarrow> take (length_u l) (drop (offset l) srcFd))"

text \<open>
  What \<^verbatim>\<open>sort.Sort\<close> promises of its result, in terms of the methods of
  \<^verbatim>\<open>linesSort\<close>: the elements are those of the argument, and no element is
  \<^verbatim>\<open>Less\<close> than one before it. The order of elements that compare equal is left open.
\<close>

definition sort_contract :: "(linesSort \<Rightarrow> linesSort) \<Rightarrow> bool" where
  "sort_contract srt \<longleftrightarrow>
     (\<forall>l. mset (srt l) = mset l \<and>
          (\<forall>i j. i < j \<and> j < Len (srt l) \<longrightarrow> \<not> Less (srt l) j i))"

section \<open>A concrete environment and handler\<close>

text \<open>
  An environment without faults. Its \<^verbatim>\<open>sort.Sort\<close> is an insertion sort on the
  timestamps; its gzip format is the plain bytes behind the one-byte header \<open>z\<close>.
\<close>

definition stdEnv :: env where
  "stdEnv =
     \<lparr>sort_Sort = sort_key timestamp,
      gzip_NewReader =
        (\<lambda>d. case d of
               [] \<Rightarrow> Inl ErrEOF
             | c # cs \<Rightarrow> if c = CHR ''z'' then Inr (cs, None)
                         else Inl (ErrOther ''gzip: invalid header'')),
      gzip_NewWriter = (\<lambda>d. CHR ''z'' # d),
      gzip_Flushed = (\<lambda>d. [CHR ''z'']),
      create_err = (\<lambda>name. None),
      write_err = (\<lambda>n. None),
      flush_err = (\<lambda>n. None)\<rparr>"

text \<open>
  A handler that reads the first byte of a line: \<open>#\<close> skips the line, \<open>!\<close> stops with
  an error, \<open>?\<close> stops without one; any other line is kept, with the code of its first
  byte as its timestamp (0 for the empty line).
\<close>

definition demoTime :: TimeHandler where
  "demoTime line =
     (case line of
        [] \<Rightarrow> (0, NOP, None)
      | c # cs \<Rightarrow>
          if c = CHR ''#'' then (0, SKIP, None)
          else if c = CHR ''!'' then (0, STOP, Some (ErrOther ''stop''))
          else if c = CHR ''?'' then (0, STOP, None)
          else (int (of_char c), NOP, None))"

text \<open>A file system with one file, at \<open>src\<close>, where every path names a file of its
  own, and an empty trace.\<close>

definition oneFile :: "bytes \<Rightarrow> world" where
  "oneFile data =
     \<lparr>resolve = (\<lambda>p. p), files = Map.empty(''src'' \<mapsto> data), events = []\<rparr>"

text \<open>The same, but for the path \<open>link\<close>, which names the file at \<open>src\<close>.\<close>

definition linkedFile :: "bytes \<Rightarrow> world" where
  "linkedFile data =
     \<lparr>resolve = (\<lambda>p. if p = ''link'' then ''src'' else p),
      files = Map.empty(''src'' \<mapsto> data), events = []\<rparr>"

definition directOpt :: Option_t where
  "directOpt =
     \<lparr>SrcFile = ''src'', DstFile = ''dst'', SrcGzip = False, DstGzip = False,
      GetTime = Some demoTime\<rparr>"

section \<open>The copy of SortByOption without retained content\<close>

text \<open>
  The second copy of the package differs from \<^verbatim>\<open>logsort.go\<close> in this: its
  \<^verbatim>\<open>lineUnit\<close> has no \<^verbatim>\<open>content\<close> field, so that the first pass retains no line
  and the second pass reads every line at its offset in the source file, whether
  \<^verbatim>\<open>SrcGzip\<close> is set or not; and it returns the errors of the gzip reader, of the
  scanner and of the second pass as they are, without wrapping them. Its definitions
  carry a \<open>0\<close>. Its units are those of above, with no content.
\<close>

function scanLoop0 ::
  "TimeHandler \<Rightarrow> Scanner \<Rightarrow> nat \<Rightarrow> linesSort \<Rightarrow> error option + linesSort"
where
  "scanLoop0 getTime scanner off lines =
     (if \<not> fst (Scan scanner) then
        (case err (snd (Scan scanner)) of
           Some e \<Rightarrow> Inl (Some e)
         | None \<Rightarrow> Inr lines)
      else
        (let line = token (snd (Scan scanner));
             tm = fst (getTime line);
             action = fst (snd (getTime line));
             e = snd (snd (getTime line))
         in if action = SKIP then
              scanLoop0 getTime (snd (Scan scanner)) (off + length line) lines
            else if action = STOP then Inl e
            else scanLoop0 getTime (snd (Scan scanner)) (off + length line + 1)
                   (lines @ [\<lparr>offset = off, length_u = length line, timestamp = tm,
                              content = None\<rparr>])))"
  by pat_completeness auto
termination
  by (relation "measure (\<lambda>(getTime, scanner, off, lines). length (buf scanner))")
     (auto simp: Scan_def Let_def split: if_splits)

declare scanLoop0.simps [simp del]

fun writeLoop0 ::
  "env \<Rightarrow> Option_t \<Rightarrow> (bytes \<Rightarrow> bytes) \<Rightarrow> linesSort \<Rightarrow> nat \<Rightarrow> bytes \<Rightarrow> event list
     \<Rightarrow> error option \<times> bytes \<times> event list"
where
  "writeLoop0 e option srcFd [] n out evs = (None, out, evs)"
| "writeLoop0 e option srcFd (l # ls) n out evs =
     (case ReadAt (srcFd out) (length_u l + 1) (offset l) of
        Inl er \<Rightarrow>
          (Some er, out, evs @ [EvReadAt (SrcFile option) (offset l) (length_u l + 1)])
      | Inr line \<Rightarrow>
          (case write_err e n of
             Some er \<Rightarrow>
               (Some er, out, evs @ [EvReadAt (SrcFile option) (offset l) (length_u l + 1)])
           | None \<Rightarrow>
               (case flush_err e n of
                  Some er \<Rightarrow>
                    (Some er, out,
                     evs @ [EvReadAt (SrcFile option) (offset l) (length_u l + 1)])
                | None \<Rightarrow>
                    writeLoop0 e option srcFd ls (Suc n) (out @ line)
                      (evs @ [EvReadAt (SrcFile option) (offset l) (length_u l + 1)]))))"

definition openScanner0 :: "env \<Rightarrow> Option_t \<Rightarrow> bytes \<Rightarrow> error + Scanner" where
  "openScanner0 e option srcFd =
     (if SrcGzip option then
        (case gzip_NewReader e srcFd of
           Inl er \<Rightarrow> Inl er
         | Inr (data, rerr) \<Rightarrow> Inr (NewScanner data rerr))
      else Inr (NewScanner srcFd None))"

definition SortByOption0 :: "env \<Rightarrow> Option_t \<Rightarrow> world \<Rightarrow> error option \<times> world" where
  "SortByOption0 e option w =
     (case GetTime option of
        None \<Rightarrow> (Some ErrNeedTimeHandler, w)
      | Some getTime \<Rightarrow>
          if SrcFile option = DstFile option then (Some ErrSameSRCAndDST, w)
          else
            (case os_Open w (SrcFile option) of
               (Inl er, w1) \<Rightarrow> (Some er, w1)
             | (Inr srcFd, w1) \<Rightarrow>
                 (case openScanner0 e option srcFd of
                    Inl er \<Rightarrow> (Some er, w1)
                  | Inr scanner \<Rightarrow>
                      (case scanLoop0 getTime scanner 0 [] of
                         Inl er \<Rightarrow> (er, w1)
                       | Inr lines \<Rightarrow>
                           (case os_Create e w1 (DstFile option) of
                              (Some er, w2) \<Rightarrow> (Some er, w2)
                            | (None, w2) \<Rightarrow>
                                (case writeLoop0 e option (srcNow e option w srcFd)
                                        (sort_Sort e lines) 0 [] [] of
                                   (r, out, evs) \<Rightarrow>
                                     (r, w2\<lparr>files := (files w2)(resolve w (DstFile option) \<mapsto>
                                                closeDst e option out),
                                            events := events w2 @ evs\<rparr>)))))))"

section \<open>Lemmas on the scanner, the index and the two passes\<close>

subsection \<open>The scanner\<close>

lemma scanLoop_indexLoop:
  "scanLoop option h s off lines = indexLoop option h (scanTokens s) (scanErr s) off lines"
proof (induction option h s off lines rule: scanLoop.induct)
  case (1 option getTime scanner off lines)
  show ?case
  proof (cases "fst (Scan scanner)")
    case False
    then show ?thesis
      by (simp add: scanLoop.simps [of _ _ scanner] scanTokens.simps [of scanner]
          scanErr.simps [of scanner])
  next
    case True
    then show ?thesis
      using "1.IH"
      by (simp add: scanLoop.simps [of _ _ scanner] scanTokens.simps [of scanner]
          scanErr.simps [of scanner] Let_def actionOf_def errOf_def timeOf_def)
  qed
qed

lemma Scan_empty: "buf s = [] \<Longrightarrow> Scan s = (False, s\<lparr>token := [], err := rdErr s\<rparr>)"
  by (simp add: Scan_def)

lemma Scan_line:
  assumes "plainLine l" "buf s = l @ NL # rest"
  shows "Scan s = (True, s\<lparr>buf := rest, token := l\<rparr>)"
proof -
  have tw: "takeWhile (\<lambda>c. c \<noteq> NL) (l @ NL # rest) = l"
    using assms(1) by (auto simp: plainLine_def takeWhile_tail)
  have "dropCR l = l" "\<not> MaxScanTokenSize \<le> length l"
    using assms(1) by (auto simp: plainLine_def)
  then show ?thesis
    using assms(2) by (simp add: Scan_def Let_def tw)
qed

lemma Scan_last:
  assumes "plainLine l" "l \<noteq> []" "buf s = l"
  shows "Scan s = (True, s\<lparr>buf := [], token := l\<rparr>)"
proof -
  have tw: "takeWhile (\<lambda>c. c \<noteq> NL) l = l"
    using assms(1) by (auto simp: plainLine_def)
  have "dropCR l = l" "\<not> MaxScanTokenSize \<le> length l"
    using assms(1) by (auto simp: plainLine_def)
  then show ?thesis
    using assms(2,3) by (simp add: Scan_def Let_def tw)
qed

lemma joinLines_Cons [simp]: "joinLines (l # ls) = l @ NL # joinLines ls"
  by (simp add: joinLines_def)

lemma joinLines_Nil [simp]: "joinLines [] = []"
  by (simp add: joinLines_def)

lemma joinLines_append [simp]: "joinLines (xs @ ys) = joinLines xs @ joinLines ys"
  by (simp add: joinLines_def)

lemma scanTokens_plain:
  assumes "\<forall>l\<in>set ls. plainLine l" "rest = [] \<or> plainLine rest" "buf s = joinLines ls @ rest"
  shows "scanTokens s = ls @ (if rest = [] then [] else [rest])"
  using assms
proof (induction ls arbitrary: s)
  case Nil
  show ?case
  proof (cases "rest = []")
    case True
    with Nil show ?thesis by (simp add: scanTokens.simps [of s] Scan_empty)
  next
    case False
    with Nil have "Scan s = (True, s\<lparr>buf := [], token := rest\<rparr>)"
      by (simp add: Scan_last)
    then show ?thesis
      using False
      by (simp add: scanTokens.simps [of s] scanTokens.simps [of "s\<lparr>buf := [], token := rest\<rparr>"]
          Scan_empty)
  qed
next
  case (Cons l ls)
  then have "Scan s = (True, s\<lparr>buf := joinLines ls @ rest, token := l\<rparr>)"
    by (simp add: Scan_line)
  then show ?case
    using Cons by (simp add: scanTokens.simps [of s])
qed

lemma scanErr_plain:
  assumes "\<forall>l\<in>set ls. plainLine l" "rest = [] \<or> plainLine rest" "buf s = joinLines ls @ rest"
  shows "scanErr s = rdErr s"
  using assms
proof (induction ls arbitrary: s)
  case Nil
  show ?case
  proof (cases "rest = []")
    case True
    with Nil show ?thesis by (simp add: scanErr.simps [of s] Scan_empty)
  next
    case False
    with Nil have "Scan s = (True, s\<lparr>buf := [], token := rest\<rparr>)"
      by (simp add: Scan_last)
    then show ?thesis
      using False
      by (simp add: scanErr.simps [of s] scanErr.simps [of "s\<lparr>buf := [], token := rest\<rparr>"]
          Scan_empty)
  qed
next
  case (Cons l ls)
  then have "Scan s = (True, s\<lparr>buf := joinLines ls @ rest, token := l\<rparr>)"
    by (simp add: Scan_line)
  then show ?case
    using Cons by (simp add: scanErr.simps [of s])
qed


subsection \<open>The index\<close>

lemma indexLoop_indexOf:
  "\<forall>t\<in>set toks. actionOf h t \<noteq> STOP \<Longrightarrow>
   indexLoop option h toks fin off lines =
     (case fin of Some e \<Rightarrow> Inl (Some (Wrap e ''scanner err''))
      | None \<Rightarrow> Inr (lines @ indexOf option h toks off))"
  by (induction toks arbitrary: off lines) (auto split: option.splits)

lemma indexLoop_STOP:
  "\<forall>t\<in>set pre. actionOf h t \<noteq> STOP \<Longrightarrow> actionOf h l = STOP \<Longrightarrow>
   indexLoop option h (pre @ l # post) fin off lines = Inl (errOf h l)"
  by (induction pre arbitrary: off lines) (auto simp: SKIP_def STOP_def)

lemma indexLoop_Inr:
  "indexLoop option h toks fin off lines = Inr idx \<Longrightarrow>
   fin = None \<and> (\<forall>t\<in>set toks. actionOf h t \<noteq> STOP) \<and> idx = lines @ indexOf option h toks off"
proof (induction toks arbitrary: off lines)
  case Nil
  then show ?case by (simp split: option.splits)
next
  case (Cons a toks)
  show ?case
  proof (cases "actionOf h a = SKIP")
    case True
    with Cons.prems have "indexLoop option h toks fin (off + length a) lines = Inr idx"
      by simp
    from Cons.IH [OF this] True show ?thesis
      by (simp add: SKIP_def STOP_def)
  next
    case False
    with Cons.prems have ns: "actionOf h a \<noteq> STOP"
      by (auto split: if_splits)
    with False Cons.prems have
      "indexLoop option h toks fin (off + length a + 1)
         (lines @ [newLineUnit option off a (timeOf h a)]) = Inr idx"
      by simp
    from Cons.IH [OF this] False ns show ?thesis
      by simp
  qed
qed

lemma indexOf_append:
  "\<forall>t\<in>set xs. actionOf h t \<noteq> SKIP \<Longrightarrow>
   indexOf option h (xs @ ys) off =
     indexOf option h xs off @ indexOf option h ys (off + length (joinLines xs))"
  by (induction xs arbitrary: off) (auto simp: add.assoc)

lemma timestamp_indexOf:
  "map timestamp (indexOf option h toks off) =
     map (timeOf h) (filter (\<lambda>t. actionOf h t \<noteq> SKIP) toks)"
  by (induction toks arbitrary: off) (auto simp: newLineUnit_def Let_def)

lemma content_indexOf_gzip:
  "SrcGzip option \<Longrightarrow>
   map content (indexOf option h toks off) =
     map Some (filter (\<lambda>t. actionOf h t \<noteq> SKIP) toks)"
  by (induction toks arbitrary: off) (auto simp: newLineUnit_def Let_def)

lemma lineBytes_indexOf_gzip:
  "SrcGzip option \<Longrightarrow>
   map (lineBytes srcFd) (indexOf option h toks off) =
     filter (\<lambda>t. actionOf h t \<noteq> SKIP) toks"
  by (induction toks arbitrary: off) (auto simp: newLineUnit_def Let_def lineBytes_def)

lemma content_indexOf_gzip_mem:
  "SrcGzip option \<Longrightarrow> l \<in> set (indexOf option h toks off) \<Longrightarrow>
   content l = Some (lineBytes srcFd l)"
  by (induction toks arbitrary: off)
     (auto simp: newLineUnit_def Let_def lineBytes_def split: if_splits)

lemma getLine_content:
  "content l = Some c \<Longrightarrow> getLine option srcFd l = (Inr (c @ [NL]), [])"
  by (simp add: getLine_def)

lemma getLine_indexOf_gzip:
  "SrcGzip option \<Longrightarrow> l \<in> set (indexOf option h toks off) \<Longrightarrow>
   getLine option srcFd l = (Inr (lineBytes srcFd l @ [NL]), []) \<and>
   timestamp l = timeOf h (lineBytes srcFd l)"
  by (induction toks arbitrary: off)
     (auto simp: newLineUnit_def Let_def lineBytes_def getLine_def split: if_splits)

text \<open>Direct mode, no line skipped: every unit addresses its line and the newline after it.\<close>

lemma lineBytes_newLineUnit_direct:
  "\<not> SrcGzip option \<Longrightarrow>
   lineBytes (pre @ t @ rest) (newLineUnit option (length pre) t tm) = t"
  by (simp add: newLineUnit_def lineBytes_def)

lemma lineBytes_indexOf_direct:
  "\<not> SrcGzip option \<Longrightarrow> \<forall>t\<in>set toks. actionOf h t \<noteq> SKIP \<Longrightarrow>
   map (lineBytes (pre @ joinLines toks @ post)) (indexOf option h toks (length pre)) = toks"
proof (induction toks arbitrary: pre)
  case Nil
  then show ?case by simp
next
  case (Cons t toks)
  have "map (lineBytes ((pre @ t @ [NL]) @ joinLines toks @ post))
          (indexOf option h toks (length (pre @ t @ [NL]))) = toks"
    using Cons.prems by (intro Cons.IH) auto
  moreover have "lineBytes (pre @ t @ (NL # joinLines toks @ post))
          (newLineUnit option (length pre) t (timeOf h t)) = t"
    using Cons.prems(1) by (rule lineBytes_newLineUnit_direct)
  ultimately show ?case
    using Cons.prems by simp
qed

lemma getLine_indexOf_direct:
  "\<not> SrcGzip option \<Longrightarrow> \<forall>t\<in>set toks. actionOf h t \<noteq> SKIP \<Longrightarrow>
   l \<in> set (indexOf option h toks (length pre)) \<Longrightarrow> srcFd = pre @ joinLines toks @ post \<Longrightarrow>
   getLine option srcFd l =
     (Inr (lineBytes srcFd l @ [NL]), [EvReadAt (SrcFile option) (offset l) (length_u l + 1)]) \<and>
   timestamp l = timeOf h (lineBytes srcFd l)"
proof (induction toks arbitrary: pre)
  case Nil
  then show ?case by simp
next
  case (Cons t toks)
  show ?case
  proof (cases "l = newLineUnit option (length pre) t (timeOf h t)")
    case True
    then show ?thesis
      using Cons.prems
      by (simp add: newLineUnit_def lineBytes_def getLine_def ReadAt_def)
  next
    case False
    then have "l \<in> set (indexOf option h toks (length (pre @ t @ [NL])))"
      using Cons.prems by simp
    moreover have "srcFd = (pre @ t @ [NL]) @ joinLines toks @ post"
      using Cons.prems by simp
    ultimately show ?thesis
      using Cons.prems(1,2) by (intro Cons.IH) auto
  qed
qed


subsection \<open>The second pass\<close>

lemma writeLoop_None:
  "writeLoop e option (\<lambda>written. srcFd) ls n out evs = (None, out', evs') \<Longrightarrow>
   out' = out @ concat (map (lineOut option srcFd) ls) \<and>
   (\<forall>l\<in>set ls. \<exists>b. fst (getLine option srcFd l) = Inr b)"
proof (induction ls arbitrary: n out evs)
  case Nil
  then show ?case by simp
next
  case (Cons l ls)
  obtain r ev where g: "getLine option srcFd l = (r, ev)"
    by (cases "getLine option srcFd l")
  with Cons.prems obtain line where r: "r = Inr line"
    by (cases r) auto
  from Cons.prems g r have
    "writeLoop e option (\<lambda>written. srcFd) ls (Suc n) (out @ line) (evs @ ev) = (None, out', evs')"
    by (auto split: option.splits)
  from Cons.IH [OF this] g r show ?case
    by (simp add: lineOut_def)
qed

lemma writeLoop_fails:
  "l \<in> set ls \<Longrightarrow> fst (getLine option srcFd l) = Inl x \<Longrightarrow>
   fst (writeLoop e option (\<lambda>written. srcFd) ls n out evs) \<noteq> None"
proof
  assume l: "l \<in> set ls" "fst (getLine option srcFd l) = Inl x"
  assume "fst (writeLoop e option (\<lambda>written. srcFd) ls n out evs) = None"
  then obtain out' evs' where "writeLoop e option (\<lambda>written. srcFd) ls n out evs = (None, out', evs')"
    by (cases "writeLoop e option (\<lambda>written. srcFd) ls n out evs") auto
  from writeLoop_None [OF this] l show False
    by auto
qed

lemma writeLoop_no_reads:
  "\<forall>l\<in>set ls. content l \<noteq> None \<Longrightarrow>
   snd (snd (writeLoop e option srcFd ls n out evs)) = evs"
proof (induction ls arbitrary: n out evs)
  case Nil
  then show ?case by simp
next
  case (Cons l ls)
  then obtain c where "content l = Some c"
    by auto
  then have "getLine option (srcFd out) l = (Inr (c @ [NL]), [])"
    by (rule getLine_content)
  then show ?case
    using Cons by (simp split: option.splits)
qed

text \<open>Units that hold their content are written without a look at the source.\<close>

lemma writeLoop_retained:
  "\<forall>l\<in>set ls. content l \<noteq> None \<Longrightarrow>
   writeLoop e option srcFd ls n out evs = writeLoop e option srcFd' ls n out evs"
proof (induction ls arbitrary: n out evs)
  case Nil
  then show ?case by simp
next
  case (Cons l ls)
  then obtain c where "content l = Some c"
    by auto
  then have "getLine option (srcFd out) l = (Inr (c @ [NL]), [])"
    "getLine option (srcFd' out) l = (Inr (c @ [NL]), [])"
    by (simp_all add: getLine_content)
  then show ?case
    using Cons by (simp split: option.splits)
qed

text \<open>A unit without content cannot be read from a source that has been truncated.\<close>

lemma writeLoop_truncated:
  "content l = None \<Longrightarrow> srcFd [] = [] \<Longrightarrow>
   fst (writeLoop e option srcFd (l # ls) n [] evs) \<noteq> None"
  by (simp add: getLine_def ReadAt_def)

subsection \<open>What the contract of sort.Sort gives\<close>

text \<open>\<^verbatim>\<open>sort.Sort\<close> changes the slice through \<^verbatim>\<open>Swap\<close> only, and \<^verbatim>\<open>Swap\<close> keeps
  the elements.\<close>

lemma mset_Swap: "i < Len l \<Longrightarrow> j < Len l \<Longrightarrow> mset (Swap l i j) = mset l"
  by (simp add: Swap_def Len_def mset_swap)

lemma sort_contract_mset: "sort_contract srt \<Longrightarrow> mset (srt l) = mset l"
  by (simp add: sort_contract_def)

lemma sort_contract_set: "sort_contract srt \<Longrightarrow> set (srt l) = set l"
  by (metis sort_contract_mset set_mset_mset)

lemma sort_contract_sorted: "sort_contract srt \<Longrightarrow> sorted (map timestamp (srt l))"
  unfolding sorted_iff_nth_mono_less
  by (auto simp: sort_contract_def Len_def Less_def not_less)

lemma sort_contract_Nil: "sort_contract srt \<Longrightarrow> srt [] = []"
  using sort_contract_mset [of srt "[]"] by simp

lemma sort_contract_sort_key: "sort_contract (sort_key timestamp)"
proof -
  have "\<not> Less (sort_key timestamp l) j i" if "i < j" "j < length (sort_key timestamp l)" for l i j
  proof -
    have "sorted (map timestamp (sort_key timestamp l))"
      by simp
    with that have "map timestamp (sort_key timestamp l) ! i \<le> map timestamp (sort_key timestamp l) ! j"
      unfolding sorted_iff_nth_mono_less by (metis length_map)
    with that show ?thesis
      by (simp add: Less_def)
  qed
  then show ?thesis
    by (simp add: sort_contract_def Len_def)
qed

subsection \<open>SortByOption, pass by pass\<close>

lemma SortByOption_aborted:
  assumes "GetTime option = Some h" "SrcFile option \<noteq> DstFile option"
    and "files w (resolve w (SrcFile option)) = Some data"
    and "openScanner e option data = Inr sc"
    and "indexLoop option h (scanTokens sc) (scanErr sc) 0 [] = Inl r"
  shows "SortByOption e option w = (r, w\<lparr>events := events w @ [EvOpen (SrcFile option)]\<rparr>)"
  using assms by (simp add: SortByOption_def os_Open_def scanLoop_indexLoop)

lemma SortByOption_indexed:
  assumes "GetTime option = Some h" "SrcFile option \<noteq> DstFile option"
    and "files w (resolve w (SrcFile option)) = Some data"
    and "openScanner e option data = Inr sc"
    and "indexLoop option h (scanTokens sc) (scanErr sc) 0 [] = Inr idx"
  shows "SortByOption e option w =
     (case create_err e (DstFile option) of
        Some er \<Rightarrow>
          (Some er, w\<lparr>events := events w @ [EvOpen (SrcFile option), EvCreate (DstFile option)]\<rparr>)
      | None \<Rightarrow>
          (case writeLoop e option (srcNow e option w data) (sort_Sort e idx) 0 [] [] of
             (r, out, evs) \<Rightarrow>
               (r, w\<lparr>files := (files w)(resolve w (DstFile option) \<mapsto> closeDst e option out),
                      events := events w @ [EvOpen (SrcFile option), EvCreate (DstFile option)]
                                  @ evs\<rparr>)))"
  using assms
  by (simp add: SortByOption_def os_Open_def os_Create_def scanLoop_indexLoop
      split: option.splits prod.splits)

text \<open>When the destination is another file than the source, the source keeps its bytes.\<close>

lemma srcNow_other:
  "resolve w (SrcFile option) \<noteq> resolve w (DstFile option) \<Longrightarrow>
   srcNow e option w data = (\<lambda>written. data)"
  by (rule ext) (simp add: srcNow_def)

lemma indexLoop_Inl:
  assumes "fin \<noteq> None \<or> (\<exists>t\<in>set toks. actionOf h t = STOP)"
  shows "\<exists>r. indexLoop option h toks fin off lines = Inl r"
proof (cases "indexLoop option h toks fin off lines")
  case (Inl r)
  then show ?thesis by simp
next
  case (Inr idx)
  from indexLoop_Inr [OF this] assms show ?thesis
    by auto
qed

text \<open>The bytes written when every unit yields its line and the newline after it.\<close>

lemma concat_lineOut:
  assumes "\<forall>l\<in>set ls. fst (getLine option srcFd l) = Inr (lineBytes srcFd l @ [NL])"
  shows "concat (map (lineOut option srcFd) ls) = joinLines (map (lineBytes srcFd) ls)"
  using assms by (induction ls) (simp_all add: lineOut_def)

text \<open>
  The units of the index each yield their own line, in retention mode always and in
  direct mode when the file is its lines, each with one newline, and none is skipped.
\<close>

lemma index_faithful:
  assumes "SrcGzip option \<or>
      (data = joinLines toks \<and> (\<forall>t\<in>set toks. actionOf h t \<noteq> SKIP))"
    and "l \<in> set (indexOf option h toks 0)"
  shows "fst (getLine option data l) = Inr (lineBytes data l @ [NL]) \<and>
     timestamp l = timeOf h (lineBytes data l)"
proof (cases "SrcGzip option")
  case True
  from getLine_indexOf_gzip [OF True assms(2)] show ?thesis
    by simp
next
  case False
  with assms(1) have d: "data = [] @ joinLines toks @ []"
    and ns: "\<forall>t\<in>set toks. actionOf h t \<noteq> SKIP"
    by auto
  from assms(2) have "l \<in> set (indexOf option h toks (length ([] :: bytes)))"
    by simp
  from getLine_indexOf_direct [OF False ns this d] show ?thesis
    by simp
qed

lemma index_lines:
  assumes "SrcGzip option \<or>
      (data = joinLines toks \<and> (\<forall>t\<in>set toks. actionOf h t \<noteq> SKIP))"
  shows "map (lineBytes data) (indexOf option h toks 0) =
     filter (\<lambda>t. actionOf h t \<noteq> SKIP) toks"
proof (cases "SrcGzip option")
  case True
  then show ?thesis by (rule lineBytes_indexOf_gzip)
next
  case False
  with assms have d: "data = [] @ joinLines toks @ []"
    and ns: "\<forall>t\<in>set toks. actionOf h t \<noteq> SKIP"
    by auto
  have "map (lineBytes ([] @ joinLines toks @ [])) (indexOf option h toks (length ([] :: bytes)))
      = toks"
    using False ns by (rule lineBytes_indexOf_direct)
  with d ns show ?thesis
    by simp
qed

lemma sorted_output:
  assumes "sort_contract (sort_Sort e)"
    and "GetTime option = Some h" "SrcFile option \<noteq> DstFile option"
    and "files w (resolve w (SrcFile option)) = Some data"
    and "openScanner e option data = Inr sc"
    and "\<forall>t\<in>set (scanTokens sc). actionOf h t \<noteq> STOP"
    and "SrcGzip option \<or>
      (resolve w (SrcFile option) \<noteq> resolve w (DstFile option) \<and>
       data = joinLines (scanTokens sc) \<and> (\<forall>t\<in>set (scanTokens sc). actionOf h t \<noteq> SKIP))"
    and "SortByOption e option w = (None, w')"
  shows "\<exists>out. files w' (resolve w (DstFile option)) = Some (closeDst e option (joinLines out)) \<and>
     mset out = mset (filter (\<lambda>t. actionOf h t \<noteq> SKIP) (scanTokens sc)) \<and>
     sorted (map (timeOf h) out)"
proof -
  define toks where "toks = scanTokens sc"
  define idx where "idx = indexOf option h toks 0"
  define srt where "srt = sort_Sort e idx"
  have ex: "SrcGzip option \<or>
      (data = joinLines toks \<and> (\<forall>t\<in>set toks. actionOf h t \<noteq> SKIP))"
    using assms(7) by (auto simp: toks_def)
  have fin: "scanErr sc = None"
  proof (rule ccontr)
    assume "scanErr sc \<noteq> None"
    then obtain r where "indexLoop option h (scanTokens sc) (scanErr sc) 0 [] = Inl (Some r)"
      using assms(6) by (auto simp: indexLoop_indexOf)
    from SortByOption_aborted [OF assms(2-5) this] assms(8) show False
      by simp
  qed
  then have "indexLoop option h (scanTokens sc) (scanErr sc) 0 [] = Inr idx"
    using assms(6) by (simp add: indexLoop_indexOf idx_def toks_def)
  from SortByOption_indexed [OF assms(2-5) this] assms(8)
  obtain out evs where wl0: "writeLoop e option (srcNow e option w data) srt 0 [] [] = (None, out, evs)"
    and dst: "files w' (resolve w (DstFile option)) = Some (closeDst e option out)"
    by (auto simp: srt_def split: option.splits prod.splits)
  have set_srt: "set srt = set idx"
    unfolding srt_def using assms(1) by (rule sort_contract_set)
  have "writeLoop e option (srcNow e option w data) srt 0 [] [] =
      writeLoop e option (\<lambda>written. data) srt 0 [] []"
  proof (cases "SrcGzip option")
    case True
    have "\<forall>l\<in>set srt. content l \<noteq> None"
      using content_indexOf_gzip_mem [OF True, of _ h toks 0 data] set_srt
      by (auto simp: idx_def)
    then show ?thesis
      by (rule writeLoop_retained)
  next
    case False
    with assms(7) show ?thesis
      by (simp add: srcNow_other)
  qed
  with wl0 have wl: "writeLoop e option (\<lambda>written. data) srt 0 [] [] = (None, out, evs)"
    by simp
  have faithful: "fst (getLine option data l) = Inr (lineBytes data l @ [NL]) \<and>
     timestamp l = timeOf h (lineBytes data l)" if "l \<in> set srt" for l
    using index_faithful [of option data toks h l] ex that set_srt
    by (simp add: idx_def)
  have "out = concat (map (lineOut option data) srt)"
    using writeLoop_None [OF wl] by simp
  also have "\<dots> = joinLines (map (lineBytes data) srt)"
    using faithful by (intro concat_lineOut) simp
  finally have out: "out = joinLines (map (lineBytes data) srt)" .
  have "mset (map (lineBytes data) srt) = mset (map (lineBytes data) idx)"
    using sort_contract_mset [OF assms(1), of idx] by (metis srt_def mset_map)
  also have "map (lineBytes data) idx = filter (\<lambda>t. actionOf h t \<noteq> SKIP) toks"
    unfolding idx_def using ex by (rule index_lines)
  finally have perm: "mset (map (lineBytes data) srt) =
     mset (filter (\<lambda>t. actionOf h t \<noteq> SKIP) (scanTokens sc))"
    by (simp add: toks_def)
  have "map (timeOf h) (map (lineBytes data) srt) = map timestamp srt"
    using faithful by simp
  moreover have "sorted (map timestamp srt)"
    unfolding srt_def using assms(1) by (rule sort_contract_sorted)
  ultimately have "sorted (map (timeOf h) (map (lineBytes data) srt))"
    by (simp only:)
  with dst out perm show ?thesis
    by blast
qed

subsection \<open>The two copies\<close>

text \<open>In direct mode the first passes of the two copies return the same index, and
  return early together, with the same error but for the wrapping.\<close>

lemma scanLoop0_scanLoop:
  "\<not> SrcGzip option \<Longrightarrow>
   (\<forall>idx. scanLoop option h s off lines = Inr idx \<longrightarrow> scanLoop0 h s off lines = Inr idx) \<and>
   (\<forall>r. scanLoop option h s off lines = Inl r \<longrightarrow>
      (\<exists>r0. scanLoop0 h s off lines = Inl r0 \<and> (r0 = None \<longleftrightarrow> r = None)))"
proof (induction option h s off lines rule: scanLoop.induct)
  case (1 option getTime scanner off lines)
  let ?line = "token (snd (Scan scanner))"
  let ?action = "fst (snd (getTime ?line))"
  show ?case
  proof (cases "fst (Scan scanner)")
    case False
    then show ?thesis
      by (simp add: scanLoop.simps [of _ _ scanner] scanLoop0.simps [of _ scanner]
          split: option.splits)
  next
    case True
    consider (skip) "?action = SKIP" | (stop) "?action \<noteq> SKIP" "?action = STOP"
      | (keep) "?action \<noteq> SKIP" "?action \<noteq> STOP"
      by blast
    then show ?thesis
    proof cases
      case skip
      with True "1.IH"(1) "1.prems" show ?thesis
        by (simp add: scanLoop.simps [of _ _ scanner] scanLoop0.simps [of _ scanner] Let_def)
    next
      case stop
      with True show ?thesis
        by (simp add: scanLoop.simps [of _ _ scanner] scanLoop0.simps [of _ scanner] Let_def)
    next
      case keep
      with True "1.IH"(2) "1.prems" show ?thesis
        by (simp add: scanLoop.simps [of _ _ scanner] scanLoop0.simps [of _ scanner] Let_def
            newLineUnit_def)
    qed
  qed
qed

lemma writeLoop0_writeLoop:
  assumes "\<forall>l\<in>set ls. content l = None"
  shows "fst (snd (writeLoop0 e option srcFd ls n out evs)) =
       fst (snd (writeLoop e option srcFd ls n out evs)) \<and>
     snd (snd (writeLoop0 e option srcFd ls n out evs)) =
       snd (snd (writeLoop e option srcFd ls n out evs)) \<and>
     (fst (writeLoop0 e option srcFd ls n out evs) = None \<longleftrightarrow>
      fst (writeLoop e option srcFd ls n out evs) = None)"
  using assms
  by (induction ls arbitrary: n out evs)
     (auto simp: getLine_def split: sum.splits option.splits)

lemma content_indexOf_direct:
  "\<not> SrcGzip option \<Longrightarrow> l \<in> set (indexOf option h toks off) \<Longrightarrow> content l = None"
  by (induction toks arbitrary: off) (auto simp: newLineUnit_def split: if_splits)

text \<open>In direct mode the two copies leave the same world behind and succeed together.\<close>

lemma SortByOption0_direct:
  assumes "sort_contract (sort_Sort e)" "\<not> SrcGzip option"
  shows "snd (SortByOption0 e option w) = snd (SortByOption e option w) \<and>
     (fst (SortByOption0 e option w) = None \<longleftrightarrow> fst (SortByOption e option w) = None)"
proof (cases "GetTime option")
  case None
  then show ?thesis
    by (simp add: SortByOption0_def SortByOption_def)
next
  case (Some h)
  show ?thesis
  proof (cases "SrcFile option = DstFile option \<or> files w (resolve w (SrcFile option)) = None")
    case True
    then show ?thesis
      using Some by (auto simp: SortByOption0_def SortByOption_def os_Open_def)
  next
    case False
    then obtain data where f: "files w (resolve w (SrcFile option)) = Some data"
      and ne: "SrcFile option \<noteq> DstFile option"
      by auto
    define sc where "sc = NewScanner data None"
    have op: "openScanner e option data = Inr sc" "openScanner0 e option data = Inr sc"
      using assms(2) by (simp_all add: openScanner_def openScanner0_def sc_def)
    show ?thesis
    proof (cases "scanLoop option h sc 0 []")
      case (Inl r)
      with scanLoop0_scanLoop [OF assms(2), of h sc 0 "[]"]
      obtain r0 where "scanLoop0 h sc 0 [] = Inl r0" "r0 = None \<longleftrightarrow> r = None"
        by auto
      with Inl show ?thesis
        using Some f ne op by (simp add: SortByOption0_def SortByOption_def os_Open_def)
    next
      case (Inr idx)
      with scanLoop0_scanLoop [OF assms(2), of h sc 0 "[]"]
      have s0: "scanLoop0 h sc 0 [] = Inr idx"
        by simp
      from Inr have "idx = indexOf option h (scanTokens sc) 0"
        using indexLoop_Inr [of option h "scanTokens sc" "scanErr sc" 0 "[]" idx]
        by (simp add: scanLoop_indexLoop)
      then have "\<forall>l\<in>set (sort_Sort e idx). content l = None"
        using content_indexOf_direct [OF assms(2)]
        by (simp add: sort_contract_set [OF assms(1)])
      from writeLoop0_writeLoop [OF this, of e option "srcNow e option w data" 0 "[]" "[]"]
      show ?thesis
        using Some f ne op Inr s0
        by (cases "writeLoop e option (srcNow e option w data) (sort_Sort e idx) 0 [] []";
            cases "writeLoop0 e option (srcNow e option w data) (sort_Sort e idx) 0 [] []")
           (auto simp: SortByOption0_def SortByOption_def os_Open_def os_Create_def
              split: option.splits)
    qed
  qed
qed

section \<open>The properties\<close>

lemmas eval_defs =
  SortByOption_def Sort_def os_Open_def os_Create_def openScanner_def NewScanner_def
  Scan_def dropCR_def MaxScanTokenSize_def NL_def CR_def SKIP_def STOP_def NOP_def
  newLineUnit_def getLine_def ReadAt_def closeDst_def srcNow_def stdEnv_def demoTime_def
  oneFile_def
  directOpt_def actionOf_def timeOf_def errOf_def lineBytes_def joinLines_def kept_def

subsection \<open>Offsets and skipped lines\<close>

text \<open>
  C1. The claim: the cursor advances by the length of the line plus one for every line
  scanned, skipped lines included, so that every unit of the index holds the true offset
  of its line. The loop adds only the length of a skipped line (the \<open>+ 1\<close> is on the
  other path alone). On the file of the two lines \<open>#\<close> and \<open>b\<close>, of which the handler
  skips the first, the unit of \<open>b\<close> holds offset 1, the place of the newline that ends
  \<open>#\<close>; \<open>b\<close> is at offset 2, and the second pass reads the two bytes newline, \<open>b\<close>.
\<close>

theorem skipped_line_shifts_offset:
  "actionOf demoTime ''#'' = SKIP \<and>
   scanLoop directOpt demoTime (NewScanner [CHR ''#'', NL, CHR ''b'', NL] None) 0 [] =
     Inr [\<lparr>offset = 1, length_u = 1, timestamp = 98, content = None\<rparr>] \<and>
   take 1 (drop 2 [CHR ''#'', NL, CHR ''b'', NL]) = ''b'' \<and>
   lineBytes [CHR ''#'', NL, CHR ''b'', NL]
     \<lparr>offset = 1, length_u = 1, timestamp = 98, content = None\<rparr> = [NL] \<and>
   fst (getLine directOpt [CHR ''#'', NL, CHR ''b'', NL]
     \<lparr>offset = 1, length_u = 1, timestamp = 98, content = None\<rparr>) = Inr [NL, CHR ''b'']"
  by (simp add: scanLoop.simps eval_defs)

subsection \<open>The handler stops the scan\<close>

text \<open>
  C2, as stated, fails: when the handler returns \<open>STOP\<close> with a nil error, the loop
  returns that nil error, and the call succeeds. Here the only line is \<open>?\<close>, at which
  \<open>demoTime\<close> stops without an error.
\<close>

theorem stop_without_error_counterexample:
  "actionOf demoTime ''?'' = STOP \<and> errOf demoTime ''?'' = None \<and>
   fst (SortByOption stdEnv directOpt (oneFile [CHR ''?'', NL])) = None"
  by (simp add: scanLoop.simps eval_defs)

text \<open>
  C2, amended: when the handler returns \<open>STOP\<close> at a line, and at no line before it,
  the call returns exactly the error the handler returned with it (nil when it returned
  none), whatever lines \<open>post\<close> follow; the first pass returns no index, and nothing is
  done but the opening of the source.
\<close>

theorem stop_returns_handler_error:
  assumes "GetTime option = Some h" "SrcFile option \<noteq> DstFile option"
    and "files w (resolve w (SrcFile option)) = Some data"
    and "openScanner e option data = Inr sc"
    and "scanTokens sc = pre @ l # post"
    and "\<forall>t\<in>set pre. actionOf h t \<noteq> STOP" "actionOf h l = STOP"
  shows "scanLoop option h sc 0 [] = Inl (errOf h l) \<and>
     SortByOption e option w =
       (errOf h l, w\<lparr>events := events w @ [EvOpen (SrcFile option)]\<rparr>)"
proof -
  have il: "indexLoop option h (scanTokens sc) (scanErr sc) 0 [] = Inl (errOf h l)"
    unfolding assms(5) using assms(6,7) by (rule indexLoop_STOP)
  then have "scanLoop option h sc 0 [] = Inl (errOf h l)"
    by (simp add: scanLoop_indexLoop)
  moreover note SortByOption_aborted [OF assms(1-4) il]
  ultimately show ?thesis
    by simp
qed

theorem stop_returns_handler_error_witness:
  "SortByOption stdEnv directOpt (oneFile [CHR ''a'', NL, CHR ''!'', NL, CHR ''b'', NL]) =
     (Some (ErrOther ''stop''),
      \<lparr>resolve = (\<lambda>p. p),
       files = Map.empty(''src'' \<mapsto> [CHR ''a'', NL, CHR ''!'', NL, CHR ''b'', NL]),
       events = [EvOpen ''src'']\<rparr>)"
proof -
  let ?data = "[CHR ''a'', NL, CHR ''!'', NL, CHR ''b'', NL]"
  have "scanTokens (NewScanner ?data None) = [''a''] @ ''!'' # [''b'']"
    by (simp add: scanTokens.simps eval_defs)
  from stop_returns_handler_error [of directOpt demoTime "oneFile ?data" ?data stdEnv
      "NewScanner ?data None" "[''a'']" "''!''" "[''b'']", OF _ _ _ _ this]
  show ?thesis
    by (simp add: eval_defs)
qed

subsection \<open>Configuration errors\<close>

text \<open>
  C7. With a nil handler the call returns \<open>ErrNeedTimeHandler\<close>; with equal source and
  destination paths (and a handler, since the handler is checked first) it returns
  \<open>ErrSameSRCAndDST\<close>. In both cases the world is as it was: no file has been opened
  or created, and the trace of calls is unchanged.
\<close>

theorem configuration_errors_before_io:
  "(GetTime option = None \<longrightarrow> SortByOption e option w = (Some ErrNeedTimeHandler, w)) \<and>
   (GetTime option \<noteq> None \<and> SrcFile option = DstFile option \<longrightarrow>
      SortByOption e option w = (Some ErrSameSRCAndDST, w)) \<and>
   (GetTime option = None \<or> SrcFile option = DstFile option \<longrightarrow>
      snd (SortByOption e option w) = w \<and>
      fst (SortByOption e option w) \<in> {Some ErrNeedTimeHandler, Some ErrSameSRCAndDST})"
  by (auto simp: SortByOption_def split: option.splits)

theorem configuration_errors_before_io_witness:
  "SortByOption stdEnv (directOpt\<lparr>GetTime := None\<rparr>) (oneFile ''x'') =
     (Some ErrNeedTimeHandler, oneFile ''x'') \<and>
   SortByOption stdEnv (directOpt\<lparr>DstFile := ''src''\<rparr>) (oneFile ''x'') =
     (Some ErrSameSRCAndDST, oneFile ''x'')"
  using configuration_errors_before_io [of "directOpt\<lparr>GetTime := None\<rparr>" stdEnv "oneFile ''x''"]
    configuration_errors_before_io [of "directOpt\<lparr>DstFile := ''src''\<rparr>" stdEnv "oneFile ''x''"]
  by (simp add: directOpt_def)

subsection \<open>The empty source\<close>

text \<open>
  C8. For a handler, distinct paths, an empty file at the source path and a destination
  that can be created (be it a link to the source), \<open>Sort\<close> returns nil; the
  destination then exists and is empty, and the calls made are the opening of the
  source and the creation of the destination.
\<close>

theorem empty_source_empty_destination:
  assumes "sort_contract (sort_Sort e)"
    and "files w (resolve w srcFile) = Some []" "srcFile \<noteq> dstFile"
    and "create_err e dstFile = None"
  shows "Sort e srcFile dstFile (Some getTime) w =
     (None, w\<lparr>files := (files w)(resolve w dstFile \<mapsto> []),
              events := events w @ [EvOpen srcFile, EvCreate dstFile]\<rparr>)"
proof -
  have "scanLoop option getTime (NewScanner [] None) 0 [] = Inr []" for option
    by (simp add: scanLoop.simps NewScanner_def Scan_def)
  then show ?thesis
    using assms
    by (simp add: Sort_def SortByOption_def os_Open_def os_Create_def openScanner_def
        sort_contract_Nil closeDst_def)
qed

theorem empty_source_empty_destination_witness:
  "Sort stdEnv ''src'' ''dst'' (Some demoTime) (oneFile []) =
     (None, \<lparr>resolve = (\<lambda>p. p), files = Map.empty(''src'' \<mapsto> [], ''dst'' \<mapsto> []),
             events = [EvOpen ''src'', EvCreate ''dst'']\<rparr>)"
proof -
  have "sort_contract (sort_Sort stdEnv)"
    by (simp add: stdEnv_def sort_contract_sort_key)
  from empty_source_empty_destination [OF this, of "oneFile []" "''src''" "''dst''" demoTime]
  show ?thesis
    by (simp add: stdEnv_def oneFile_def)
qed

subsection \<open>Failures of the first pass\<close>

text \<open>
  C9. When the source cannot be opened, or the gzip reader cannot be made, or the scan
  ends with an error, or the handler stops at some line, the call returns with the files
  as they were; the one call it has made is the opening of the source, so the
  destination has not been created.
\<close>

theorem first_pass_failure_before_create:
  assumes "GetTime option = Some h" "SrcFile option \<noteq> DstFile option"
    and "files w (resolve w (SrcFile option)) = None \<or>
      (\<exists>data. files w (resolve w (SrcFile option)) = Some data \<and>
         ((SrcGzip option \<and> (\<exists>er. gzip_NewReader e data = Inl er)) \<or>
          (\<exists>sc. openScanner e option data = Inr sc \<and>
             (scanErr sc \<noteq> None \<or> (\<exists>t\<in>set (scanTokens sc). actionOf h t = STOP)))))"
  shows "files (snd (SortByOption e option w)) = files w \<and>
     events (snd (SortByOption e option w)) = events w @ [EvOpen (SrcFile option)]"
proof -
  consider (no_file) "files w (resolve w (SrcFile option)) = None"
    | (no_reader) data er where "files w (resolve w (SrcFile option)) = Some data"
        "SrcGzip option" "gzip_NewReader e data = Inl er"
    | (scan) data sc where "files w (resolve w (SrcFile option)) = Some data"
        "openScanner e option data = Inr sc"
        "scanErr sc \<noteq> None \<or> (\<exists>t\<in>set (scanTokens sc). actionOf h t = STOP)"
    using assms(3) by (elim disjE exE conjE) blast+
  then show ?thesis
  proof cases
    case no_file
    then show ?thesis
      using assms(1,2) by (simp add: SortByOption_def os_Open_def)
  next
    case no_reader
    then show ?thesis
      using assms(1,2) by (simp add: SortByOption_def os_Open_def openScanner_def)
  next
    case scan
    from indexLoop_Inl [OF scan(3)] obtain r where
      "indexLoop option h (scanTokens sc) (scanErr sc) 0 [] = Inl r"
      by blast
    from SortByOption_aborted [OF assms(1,2) scan(1,2) this] show ?thesis
      by simp
  qed
qed

theorem first_pass_failure_before_create_witness:
  "files (snd (SortByOption stdEnv (directOpt\<lparr>SrcFile := ''none''\<rparr>) (oneFile ''x''))) =
     files (oneFile ''x'') \<and>
   events (snd (SortByOption stdEnv (directOpt\<lparr>SrcFile := ''none''\<rparr>) (oneFile ''x''))) =
     [EvOpen ''none''] \<and>
   files (snd (SortByOption stdEnv (directOpt\<lparr>SrcGzip := True\<rparr>) (oneFile ''x''))) =
     files (oneFile ''x'') \<and>
   events (snd (SortByOption stdEnv (directOpt\<lparr>SrcGzip := True\<rparr>) (oneFile ''x''))) =
     [EvOpen ''src''] \<and>
   files (snd (SortByOption stdEnv directOpt (oneFile [CHR ''b'', NL, CHR ''!'', NL]))) =
     files (oneFile [CHR ''b'', NL, CHR ''!'', NL]) \<and>
   events (snd (SortByOption stdEnv directOpt (oneFile [CHR ''b'', NL, CHR ''!'', NL]))) =
     [EvOpen ''src'']"
proof -
  let ?data = "[CHR ''b'', NL, CHR ''!'', NL]"
  have "scanTokens (NewScanner ?data None) = [''b'', ''!'']"
    by (simp add: scanTokens.simps eval_defs)
  then have stop: "\<exists>t\<in>set (scanTokens (NewScanner ?data None)). actionOf demoTime t = STOP"
    by (simp add: eval_defs)
  have a: "files (oneFile ''x'')
      (resolve (oneFile ''x'') (SrcFile (directOpt\<lparr>SrcFile := ''none''\<rparr>))) = None"
    by (simp add: eval_defs)
  have b: "files (oneFile ''x'')
      (resolve (oneFile ''x'') (SrcFile (directOpt\<lparr>SrcGzip := True\<rparr>))) = Some ''x''"
    "SrcGzip (directOpt\<lparr>SrcGzip := True\<rparr>)"
    "gzip_NewReader stdEnv ''x'' = Inl (ErrOther ''gzip: invalid header'')"
    by (simp_all add: eval_defs)
  have c: "files (oneFile ?data) (resolve (oneFile ?data) (SrcFile directOpt)) = Some ?data"
    "openScanner stdEnv directOpt ?data = Inr (NewScanner ?data None)"
    by (simp_all add: eval_defs)
  have g: "GetTime (directOpt\<lparr>SrcFile := ''none''\<rparr>) = Some demoTime"
    "SrcFile (directOpt\<lparr>SrcFile := ''none''\<rparr>) \<noteq> DstFile (directOpt\<lparr>SrcFile := ''none''\<rparr>)"
    "GetTime (directOpt\<lparr>SrcGzip := True\<rparr>) = Some demoTime"
    "SrcFile (directOpt\<lparr>SrcGzip := True\<rparr>) \<noteq> DstFile (directOpt\<lparr>SrcGzip := True\<rparr>)"
    "GetTime directOpt = Some demoTime" "SrcFile directOpt \<noteq> DstFile directOpt"
    by (simp_all add: directOpt_def)
  from first_pass_failure_before_create [OF g(1,2), of "oneFile ''x''" stdEnv] a
  have 1: "files (snd (SortByOption stdEnv (directOpt\<lparr>SrcFile := ''none''\<rparr>) (oneFile ''x''))) =
       files (oneFile ''x'') \<and>
     events (snd (SortByOption stdEnv (directOpt\<lparr>SrcFile := ''none''\<rparr>) (oneFile ''x''))) =
       [EvOpen ''none'']"
    by (simp add: oneFile_def)
  from first_pass_failure_before_create [OF g(3,4), of "oneFile ''x''" stdEnv] b
  have 2: "files (snd (SortByOption stdEnv (directOpt\<lparr>SrcGzip := True\<rparr>) (oneFile ''x''))) =
       files (oneFile ''x'') \<and>
     events (snd (SortByOption stdEnv (directOpt\<lparr>SrcGzip := True\<rparr>) (oneFile ''x''))) =
       [EvOpen ''src'']"
    by (simp add: oneFile_def directOpt_def)
  from first_pass_failure_before_create [OF g(5,6), of "oneFile ?data" stdEnv] c stop
  have 3: "files (snd (SortByOption stdEnv directOpt (oneFile ?data))) = files (oneFile ?data) \<and>
     events (snd (SortByOption stdEnv directOpt (oneFile ?data))) = [EvOpen ''src'']"
    by (simp add: oneFile_def directOpt_def)
  from 1 2 3 show ?thesis
    by blast
qed

subsection \<open>A compressed source\<close>

text \<open>
  C3. The claim: with \<open>SrcGzip\<close> set, the first pass retains the bytes of every kept
  line, and the second pass writes every line from what was retained, not from reads
  at offsets in the source file. The second copy of \<open>SortByOption\<close> has no
  \<^verbatim>\<open>content\<close> field: it retains nothing and reads the compressed file at the offsets
  of the uncompressed lines. On the compressed form \<open>z\<close>, \<open>b\<close>, newline, \<open>#\<close>,
  newline, \<open>a\<close> of the lines \<open>b\<close>, \<open>#\<close>, \<open>a\<close> every unit of its index is without
  content, it reads the source file at offsets 3 and 0, returns nil and leaves the bytes
  \<open>#\<close>, newline, \<open>z\<close>, \<open>b\<close> of the compressed file in the destination, where the
  lines \<open>a\<close> and \<open>b\<close> were to be.
\<close>

theorem second_copy_reads_compressed_source:
  "SrcGzip (directOpt\<lparr>SrcGzip := True\<rparr>) \<and>
   gzip_NewReader stdEnv [CHR ''z'', CHR ''b'', NL, CHR ''#'', NL, CHR ''a''] =
     Inr ([CHR ''b'', NL, CHR ''#'', NL, CHR ''a''], None) \<and>
   scanLoop0 demoTime (NewScanner [CHR ''b'', NL, CHR ''#'', NL, CHR ''a''] None) 0 [] =
     Inr [\<lparr>offset = 0, length_u = 1, timestamp = 98, content = None\<rparr>,
          \<lparr>offset = 3, length_u = 1, timestamp = 97, content = None\<rparr>] \<and>
   SortByOption0 stdEnv (directOpt\<lparr>SrcGzip := True\<rparr>)
     (oneFile [CHR ''z'', CHR ''b'', NL, CHR ''#'', NL, CHR ''a'']) =
   (None,
    \<lparr>resolve = (\<lambda>p. p),
     files = Map.empty(''src'' \<mapsto> [CHR ''z'', CHR ''b'', NL, CHR ''#'', NL, CHR ''a''],
                        ''dst'' \<mapsto> [CHR ''#'', NL, CHR ''z'', CHR ''b'']),
     events = [EvOpen ''src'', EvCreate ''dst'', EvReadAt ''src'' 3 2,
               EvReadAt ''src'' 0 2]\<rparr>) \<and>
   joinLines [''a'', ''b''] = [CHR ''a'', NL, CHR ''b'', NL]"
  by (simp add: scanLoop0.simps SortByOption0_def openScanner0_def eval_defs)

text \<open>
  The copy in \<^verbatim>\<open>logsort.go\<close> does what C3 says. With \<open>SrcGzip\<close> set, every unit of the
  index built by its first pass holds the bytes of its line, for each line the handler
  does not skip, in the order scanned. The calls of \<open>SortByOption\<close> are then the opening
  of the source and the creation of the destination and no read at a position; and when
  it returns nil, the destination holds the retained content of the sorted units, each
  followed by one newline.
\<close>

theorem retention_mode_uses_retained_content:
  assumes "sort_contract (sort_Sort e)"
    and "SrcGzip option" "GetTime option = Some h" "SrcFile option \<noteq> DstFile option"
    and "files w (resolve w (SrcFile option)) = Some data"
    and "gzip_NewReader e data = Inr (plain, rerr)"
    and "scanLoop option h (NewScanner plain rerr) 0 [] = Inr lines"
  shows "map content lines =
       map Some (filter (\<lambda>t. actionOf h t \<noteq> SKIP) (scanTokens (NewScanner plain rerr))) \<and>
     events (snd (SortByOption e option w)) =
       events w @ [EvOpen (SrcFile option), EvCreate (DstFile option)] \<and>
     (fst (SortByOption e option w) = None \<longrightarrow>
        files (snd (SortByOption e option w)) (resolve w (DstFile option)) =
          Some (closeDst e option
            (concat (map (\<lambda>l. the (content l) @ [NL]) (sort_Sort e lines)))))"
proof -
  define sc where "sc = NewScanner plain rerr"
  have sc: "openScanner e option data = Inr sc"
    using assms(2,6) by (simp add: openScanner_def sc_def)
  have il: "indexLoop option h (scanTokens sc) (scanErr sc) 0 [] = Inr lines"
    using assms(7) by (simp add: scanLoop_indexLoop sc_def)
  from indexLoop_Inr [OF il] have lines: "lines = indexOf option h (scanTokens sc) 0"
    by simp
  have retained: "map content lines =
      map Some (filter (\<lambda>t. actionOf h t \<noteq> SKIP) (scanTokens sc))"
    unfolding lines using assms(2) by (rule content_indexOf_gzip)
  have has: "content l = Some (lineBytes data l)" if "l \<in> set (sort_Sort e lines)" for l
    using that content_indexOf_gzip_mem [OF assms(2), of l h "scanTokens sc" 0 data]
    by (simp add: sort_contract_set [OF assms(1)] lines)
  then have none: "\<forall>l\<in>set (sort_Sort e lines). content l \<noteq> None"
    by simp
  have const: "writeLoop e option (srcNow e option w data) (sort_Sort e lines) 0 [] [] =
      writeLoop e option (\<lambda>written. data) (sort_Sort e lines) 0 [] []"
    using none by (rule writeLoop_retained)
  note run = SortByOption_indexed [OF assms(3,4,5) sc il, unfolded const]
  have ev: "events (snd (SortByOption e option w)) =
      events w @ [EvOpen (SrcFile option), EvCreate (DstFile option)]"
  proof (cases "create_err e (DstFile option)")
    case None
    with run writeLoop_no_reads [OF none, of e option "\<lambda>written. data" 0 "[]" "[]"]
    show ?thesis
      by (cases "writeLoop e option (\<lambda>written. data) (sort_Sort e lines) 0 [] []") simp
  next
    case (Some er)
    with run show ?thesis by simp
  qed
  have dst: "files (snd (SortByOption e option w)) (resolve w (DstFile option)) =
      Some (closeDst e option (concat (map (\<lambda>l. the (content l) @ [NL]) (sort_Sort e lines))))"
    if ok: "fst (SortByOption e option w) = None"
  proof -
    from ok run obtain out evs where
      wl: "writeLoop e option (\<lambda>written. data) (sort_Sort e lines) 0 [] [] = (None, out, evs)"
      and f: "files (snd (SortByOption e option w)) (resolve w (DstFile option)) =
        Some (closeDst e option out)"
      by (cases "writeLoop e option (\<lambda>written. data) (sort_Sort e lines) 0 [] []")
         (auto split: option.splits)
    have "lineOut option data l = the (content l) @ [NL]" if "l \<in> set (sort_Sort e lines)" for l
      using has [OF that] by (simp add: lineOut_def getLine_def)
    then have "map (lineOut option data) (sort_Sort e lines) =
        map (\<lambda>l. the (content l) @ [NL]) (sort_Sort e lines)"
      by simp
    with writeLoop_None [OF wl] f show ?thesis
      by simp
  qed
  from retained ev dst show ?thesis
    by (simp add: sc_def)
qed

theorem retention_mode_uses_retained_content_witness:
  "SortByOption stdEnv (directOpt\<lparr>SrcGzip := True\<rparr>)
     (oneFile [CHR ''z'', CHR ''b'', NL, CHR ''#'', NL, CHR ''a'']) =
   (None,
    \<lparr>resolve = (\<lambda>p. p),
     files = Map.empty(''src'' \<mapsto> [CHR ''z'', CHR ''b'', NL, CHR ''#'', NL, CHR ''a''],
                        ''dst'' \<mapsto> [CHR ''a'', NL, CHR ''b'', NL]),
     events = [EvOpen ''src'', EvCreate ''dst'']\<rparr>)"
proof -
  let ?data = "[CHR ''z'', CHR ''b'', NL, CHR ''#'', NL, CHR ''a'']"
  let ?opt = "directOpt\<lparr>SrcGzip := True\<rparr>"
  let ?lines = "[\<lparr>offset = 0, length_u = 1, timestamp = 98, content = Some ''b''\<rparr>,
                 \<lparr>offset = 3, length_u = 1, timestamp = 97, content = Some ''a''\<rparr>]"
  have c: "sort_contract (sort_Sort stdEnv)"
    by (simp add: stdEnv_def sort_contract_sort_key)
  have h: "SrcGzip ?opt" "GetTime ?opt = Some demoTime" "SrcFile ?opt \<noteq> DstFile ?opt"
    "files (oneFile ?data) (resolve (oneFile ?data) (SrcFile ?opt)) = Some ?data"
    "gzip_NewReader stdEnv ?data = Inr ([CHR ''b'', NL, CHR ''#'', NL, CHR ''a''], None)"
    by (simp_all add: eval_defs)
  have s: "scanLoop ?opt demoTime (NewScanner [CHR ''b'', NL, CHR ''#'', NL, CHR ''a''] None) 0 []
      = Inr ?lines"
    by (simp add: scanLoop.simps eval_defs)
  have r: "fst (SortByOption stdEnv ?opt (oneFile ?data)) = None"
    by (simp add: scanLoop.simps eval_defs)
  have srt: "sort_Sort stdEnv ?lines = rev ?lines"
    by (simp add: stdEnv_def)
  from retention_mode_uses_retained_content [OF c h s] r
  have "events (snd (SortByOption stdEnv ?opt (oneFile ?data))) =
      [EvOpen ''src'', EvCreate ''dst''] \<and>
    files (snd (SortByOption stdEnv ?opt (oneFile ?data))) ''dst'' =
      Some [CHR ''a'', NL, CHR ''b'', NL]"
    by (simp add: srt) (simp add: eval_defs)
  then show ?thesis
    by (simp add: scanLoop.simps eval_defs)
qed

subsection \<open>The lines of the destination\<close>

text \<open>
  C4. The claim: when no line stops the scan and \<open>Sort\<close> succeeds, the destination
  holds exactly the kept lines, each followed by one newline. On the file of the two
  lines \<open>#\<close> and \<open>b\<close>, of which the handler skips the first and keeps the second,
  \<open>SortByOption\<close> returns nil and the destination holds a newline followed by \<open>b\<close>:
  an empty line that was never kept, and \<open>b\<close> without its newline. The cause is the
  offset of C1: the unit of \<open>b\<close> is read one byte early.
\<close>

theorem skipped_line_corrupts_destination:
  "kept demoTime ''b'' \<and> actionOf demoTime ''#'' = SKIP \<and>
   scanTokens (NewScanner [CHR ''#'', NL, CHR ''b'', NL] None) = [''#'', ''b''] \<and>
   SortByOption stdEnv directOpt (oneFile [CHR ''#'', NL, CHR ''b'', NL]) =
     (None,
      \<lparr>resolve = (\<lambda>p. p),
       files = Map.empty(''src'' \<mapsto> [CHR ''#'', NL, CHR ''b'', NL],
                          ''dst'' \<mapsto> [NL, CHR ''b'']),
       events = [EvOpen ''src'', EvCreate ''dst'', EvReadAt ''src'' 1 2]\<rparr>) \<and>
   joinLines [''b''] = [CHR ''b'', NL]"
  by (simp add: scanLoop.simps scanTokens.simps eval_defs)

text \<open>
  C5. The claim: of two kept lines \<open>a\<close> and \<open>b\<close> with \<open>ta \<le> tb\<close>, \<open>a\<close> appears at
  or before \<open>b\<close> in the destination when \<open>Sort\<close> succeeds. On the file of the lines
  \<open>#\<close>, \<open>#\<close>, \<open>bX\<close>, \<open>aY\<close>, of which the handler skips the first two and keeps
  \<open>bX\<close> with timestamp 98 and \<open>aY\<close> with timestamp 97, \<open>SortByOption\<close> returns nil
  and the destination holds the lines \<open>X\<close>, \<open>a#\<close> and \<open>b\<close>: neither kept line
  appears in it, so \<open>aY\<close> does not appear before \<open>bX\<close>. The cause is the offset of
  C1: each unit is read two bytes early.
\<close>

theorem skipped_lines_break_order:
  "kept demoTime ''bX'' \<and> kept demoTime ''aY'' \<and>
   timeOf demoTime ''aY'' < timeOf demoTime ''bX'' \<and>
   scanTokens (NewScanner (joinLines [''#'', ''#'', ''bX'', ''aY'']) None) =
     [''#'', ''#'', ''bX'', ''aY''] \<and>
   SortByOption stdEnv directOpt (oneFile (joinLines [''#'', ''#'', ''bX'', ''aY''])) =
     (None,
      \<lparr>resolve = (\<lambda>p. p),
       files = Map.empty(''src'' \<mapsto> joinLines [''#'', ''#'', ''bX'', ''aY''],
                          ''dst'' \<mapsto> joinLines [''X'', ''a#''] @ ''b''),
       events = [EvOpen ''src'', EvCreate ''dst'', EvReadAt ''src'' 5 3,
                 EvReadAt ''src'' 2 3]\<rparr>) \<and>
   scanTokens (NewScanner (joinLines [''X'', ''a#''] @ ''b'') None) = [''X'', ''a#'', ''b''] \<and>
   ''aY'' \<notin> set [''X'', ''a#'', ''b''] \<and> ''bX'' \<notin> set [''X'', ''a#'', ''b'']"
  by (simp add: scanLoop.simps scanTokens.simps eval_defs)

text \<open>
  Where the recorded offsets are the true ones, the claims of C4 and C5 hold. Let no
  line stop the scan, and let the source be compressed, or else be another file than
  the destination and exactly its scanned lines, each followed by one newline, with
  none of them skipped. When \<open>SortByOption\<close> returns nil, the destination is made of
  lines \<open>out\<close>, each followed by one newline, that are the kept lines of the source,
  each as often as there, in an order in which the timestamps never decrease: a line
  with a strictly smaller timestamp than another stands before it.
\<close>

theorem destination_sorted_by_timestamp:
  assumes "sort_contract (sort_Sort e)"
    and "GetTime option = Some h" "SrcFile option \<noteq> DstFile option"
    and "files w (resolve w (SrcFile option)) = Some data"
    and "openScanner e option data = Inr sc"
    and "\<forall>t\<in>set (scanTokens sc). actionOf h t \<noteq> STOP"
    and "SrcGzip option \<or>
      (resolve w (SrcFile option) \<noteq> resolve w (DstFile option) \<and>
       data = joinLines (scanTokens sc) \<and> (\<forall>t\<in>set (scanTokens sc). actionOf h t \<noteq> SKIP))"
    and "SortByOption e option w = (None, w')"
  shows "\<exists>out. files w' (resolve w (DstFile option)) =
         Some (closeDst e option (joinLines out)) \<and>
     mset out = mset (filter (\<lambda>t. actionOf h t \<noteq> SKIP) (scanTokens sc)) \<and>
     sorted (map (timeOf h) out) \<and>
     (\<forall>i j. i < length out \<and> j < length out \<and> timeOf h (out ! i) < timeOf h (out ! j)
        \<longrightarrow> i < j)"
proof -
  from sorted_output [OF assms] obtain out where
    out: "files w' (resolve w (DstFile option)) = Some (closeDst e option (joinLines out))"
      "mset out = mset (filter (\<lambda>t. actionOf h t \<noteq> SKIP) (scanTokens sc))"
      "sorted (map (timeOf h) out)"
    by blast
  have "i < j" if "i < length out" "j < length out"
    "timeOf h (out ! i) < timeOf h (out ! j)" for i j
  proof (rule ccontr)
    assume "\<not> i < j"
    then have "j \<le> i" by simp
    with out(3) that(1) have "map (timeOf h) out ! j \<le> map (timeOf h) out ! i"
      by (simp add: sorted_iff_nth_mono del: nth_map)
    with that show False by simp
  qed
  with out show ?thesis
    by blast
qed

theorem destination_sorted_by_timestamp_witness:
  "\<exists>out. files (snd (SortByOption stdEnv directOpt (oneFile (joinLines [''b'', ''c'', ''a''])))) ''dst''
       = Some (joinLines out) \<and>
     mset out = mset [''b'', ''c'', ''a''] \<and> sorted (map (timeOf demoTime) out)"
proof -
  let ?data = "joinLines [''b'', ''c'', ''a'']"
  define w' where "w' = snd (SortByOption stdEnv directOpt (oneFile ?data))"
  have c: "sort_contract (sort_Sort stdEnv)"
    by (simp add: stdEnv_def sort_contract_sort_key)
  have toks: "scanTokens (NewScanner ?data None) = [''b'', ''c'', ''a'']"
    by (simp add: scanTokens.simps eval_defs)
  have h: "GetTime directOpt = Some demoTime" "SrcFile directOpt \<noteq> DstFile directOpt"
    "files (oneFile ?data) (resolve (oneFile ?data) (SrcFile directOpt)) = Some ?data"
    "openScanner stdEnv directOpt ?data = Inr (NewScanner ?data None)"
    by (simp_all add: directOpt_def oneFile_def openScanner_def)
  have ns: "\<forall>t\<in>set (scanTokens (NewScanner ?data None)). actionOf demoTime t \<noteq> STOP"
    unfolding toks by (simp add: eval_defs)
  have ex: "SrcGzip directOpt \<or>
      (resolve (oneFile ?data) (SrcFile directOpt) \<noteq> resolve (oneFile ?data) (DstFile directOpt) \<and>
       ?data = joinLines (scanTokens (NewScanner ?data None)) \<and>
       (\<forall>t\<in>set (scanTokens (NewScanner ?data None)). actionOf demoTime t \<noteq> SKIP))"
    unfolding toks by (simp add: eval_defs)
  have r: "SortByOption stdEnv directOpt (oneFile ?data) = (None, w')"
    unfolding w'_def by (simp add: scanLoop.simps eval_defs)
  from destination_sorted_by_timestamp [OF c h ns ex r] toks show ?thesis
    by (auto simp: w'_def eval_defs)
qed

subsection \<open>A last line without a newline\<close>

text \<open>
  C10. The claim: in direct mode, when the last line of the source is kept and no
  newline follows it, the read of \<open>length + 1\<close> bytes at its recorded offset goes past
  the end of the file and \<open>Sort\<close> returns an error. On the file of the line \<open>#\<close> and
  the unterminated line \<open>b\<close>, of which the handler skips the first and keeps the
  second, \<open>SortByOption\<close> returns nil: the offset of C1 is one byte short, and the read
  of two bytes at offset 1 ends exactly at the end of the file.
\<close>

theorem skipped_line_hides_unterminated_last_line:
  "\<not> SrcGzip directOpt \<and>
   scanTokens (NewScanner [CHR ''#'', NL, CHR ''b''] None) = [''#'', ''b''] \<and>
   kept demoTime ''b'' \<and> last [CHR ''#'', NL, CHR ''b''] \<noteq> NL \<and>
   SortByOption stdEnv directOpt (oneFile [CHR ''#'', NL, CHR ''b'']) =
     (None,
      \<lparr>resolve = (\<lambda>p. p),
       files = Map.empty(''src'' \<mapsto> [CHR ''#'', NL, CHR ''b''], ''dst'' \<mapsto> [NL, CHR ''b'']),
       events = [EvOpen ''src'', EvCreate ''dst'', EvReadAt ''src'' 1 2]\<rparr>)"
  by (simp add: scanLoop.simps scanTokens.simps eval_defs)

text \<open>
  Where the recorded offsets are the true ones, the claim of C10 holds. In direct mode,
  let the source be lines \<open>ls\<close>, each followed by one newline, and then a last line
  \<open>lst\<close> that is not empty and has no newline after it; let each line be one the
  scanner returns as it stands (no carriage return at its end, shorter than the
  scanner's buffer), and let the handler keep them all. Then the first pass accepts the
  last line and records it at its true offset, the read of \<open>length lst + 1\<close> bytes
  there goes past the end of the file, and \<open>SortByOption\<close> returns an error.
\<close>

theorem unterminated_last_line_fails:
  assumes "sort_contract (sort_Sort e)"
    and "GetTime option = Some h" "SrcFile option \<noteq> DstFile option" "\<not> SrcGzip option"
    and "files w (resolve w (SrcFile option)) = Some (joinLines ls @ lst)" "lst \<noteq> []"
    and "\<forall>l\<in>set (ls @ [lst]). plainLine l \<and> kept h l"
  shows "scanLoop option h (NewScanner (joinLines ls @ lst) None) 0 [] =
       Inr (indexOf option h ls 0 @
            [\<lparr>offset = length (joinLines ls), length_u = length lst,
              timestamp = timeOf h lst, content = None\<rparr>]) \<and>
     ReadAt (joinLines ls @ lst) (length lst + 1) (length (joinLines ls)) = Inl ErrEOF \<and>
     fst (SortByOption e option w) \<noteq> None"
proof -
  define data where "data = joinLines ls @ lst"
  define sc where "sc = NewScanner data None"
  define u where "u = \<lparr>offset = length (joinLines ls), length_u = length lst,
    timestamp = timeOf h lst, content = None\<rparr>"
  define idx where "idx = indexOf option h ls 0 @ [u]"
  have plain: "\<forall>l\<in>set ls. plainLine l" "lst = [] \<or> plainLine lst"
    and keep: "\<forall>l\<in>set ls. actionOf h l \<noteq> SKIP" "actionOf h lst \<noteq> SKIP"
      "\<forall>l\<in>set (ls @ [lst]). actionOf h l \<noteq> STOP"
    using assms(7) by (auto simp: kept_def)
  have b: "buf sc = joinLines ls @ lst"
    by (simp add: sc_def NewScanner_def data_def)
  have toks: "scanTokens sc = ls @ [lst]"
    using scanTokens_plain [OF plain b] assms(6) by simp
  have fin: "scanErr sc = None"
    using scanErr_plain [OF plain b] by (simp add: sc_def NewScanner_def)
  have "indexOf option h (ls @ [lst]) 0 = idx"
    using keep(1,2) assms(4) by (simp add: indexOf_append idx_def u_def newLineUnit_def)
  then have il: "indexLoop option h (scanTokens sc) (scanErr sc) 0 [] = Inr idx"
    using keep(3) by (simp add: toks fin indexLoop_indexOf)
  have first: "scanLoop option h (NewScanner (joinLines ls @ lst) None) 0 [] = Inr idx"
    using il by (simp add: scanLoop_indexLoop sc_def data_def)
  have rd: "ReadAt (joinLines ls @ lst) (length lst + 1) (length (joinLines ls)) = Inl ErrEOF"
    by (simp add: ReadAt_def)
  have op: "openScanner e option data = Inr sc"
    using assms(4) by (simp add: openScanner_def sc_def)
  have f: "files w (resolve w (SrcFile option)) = Some data"
    using assms(5) by (simp add: data_def)
  note run = SortByOption_indexed [OF assms(2,3) f op il]
  have mem: "u \<in> set (sort_Sort e idx)"
    by (simp add: sort_contract_set [OF assms(1)] idx_def)
  have wl: "fst (writeLoop e option (srcNow e option w data) (sort_Sort e idx) 0 [] []) \<noteq> None"
  proof (cases "resolve w (SrcFile option) = resolve w (DstFile option)")
    case True
    from mem obtain l0 rest where s: "sort_Sort e idx = l0 # rest"
      by (cases "sort_Sort e idx") auto
    then have "l0 \<in> set (indexOf option h (ls @ [lst]) 0)"
      using sort_contract_set [OF assms(1), of idx] \<open>indexOf option h (ls @ [lst]) 0 = idx\<close>
      by auto
    then have "content l0 = None"
      using assms(4) by (rule content_indexOf_direct [rotated])
    moreover have "srcNow e option w data [] = []"
      using True by (simp add: srcNow_def)
    ultimately show ?thesis
      unfolding s by (rule writeLoop_truncated)
  next
    case False
    have "fst (getLine option data u) =
        Inl (Wrapf ErrEOF ''fd %s read offset %d'' [S (SrcFile option), D (offset u)])"
      using rd by (simp add: getLine_def u_def data_def)
    with mem have "fst (writeLoop e option (\<lambda>written. data) (sort_Sort e idx) 0 [] []) \<noteq> None"
      by (rule writeLoop_fails)
    with False show ?thesis
      by (simp add: srcNow_other)
  qed
  have "fst (SortByOption e option w) \<noteq> None"
  proof (cases "create_err e (DstFile option)")
    case (Some er)
    with run show ?thesis by simp
  next
    case None
    with run wl show ?thesis
      by (cases "writeLoop e option (srcNow e option w data) (sort_Sort e idx) 0 [] []") simp
  qed
  with first rd show ?thesis
    by (simp add: idx_def u_def)
qed

theorem unterminated_last_line_fails_witness:
  "SortByOption stdEnv directOpt (oneFile [CHR ''b'', NL, CHR ''a'']) =
     (Some (Wrapf ErrEOF ''fd %s read offset %d'' [S ''src'', D 2]),
      \<lparr>resolve = (\<lambda>p. p),
       files = Map.empty(''src'' \<mapsto> [CHR ''b'', NL, CHR ''a''], ''dst'' \<mapsto> []),
       events = [EvOpen ''src'', EvCreate ''dst'', EvReadAt ''src'' 2 2]\<rparr>)"
proof -
  have c: "sort_contract (sort_Sort stdEnv)"
    by (simp add: stdEnv_def sort_contract_sort_key)
  have h: "GetTime directOpt = Some demoTime" "SrcFile directOpt \<noteq> DstFile directOpt"
    "\<not> SrcGzip directOpt"
    "files (oneFile [CHR ''b'', NL, CHR ''a''])
       (resolve (oneFile [CHR ''b'', NL, CHR ''a'']) (SrcFile directOpt)) =
     Some (joinLines [''b''] @ ''a'')"
    "''a'' \<noteq> []"
    "\<forall>l\<in>set ([''b''] @ [''a'']). plainLine l \<and> kept demoTime l"
    by (simp_all add: eval_defs plainLine_def)
  from unterminated_last_line_fails [OF c h]
  have "fst (SortByOption stdEnv directOpt (oneFile [CHR ''b'', NL, CHR ''a''])) \<noteq> None"
    by (simp add: joinLines_def)
  then show ?thesis
    by (simp add: scanLoop.simps eval_defs)
qed

subsection \<open>Sorting a sorted file again\<close>

text \<open>
  C6. The claim: sorting a file that a successful \<open>Sort\<close> has written, with the same
  handler, gives the same bytes again. The file of the lines \<open>#\<close> and \<open>b\<close> is sorted
  without an error into a destination that holds a newline followed by \<open>b\<close>, as in
  C4. Sorting that destination with the same handler into the file \<open>out\<close> returns an
  error, and \<open>out\<close> holds a newline only. The cause is the offset of C1, which makes
  the first destination a file that is not made of the kept lines.
\<close>

theorem skipped_line_breaks_resort:
  "SortByOption stdEnv directOpt (oneFile [CHR ''#'', NL, CHR ''b'', NL]) =
     (None,
      \<lparr>resolve = (\<lambda>p. p),
       files = Map.empty(''src'' \<mapsto> [CHR ''#'', NL, CHR ''b'', NL],
                          ''dst'' \<mapsto> [NL, CHR ''b'']),
       events = [EvOpen ''src'', EvCreate ''dst'', EvReadAt ''src'' 1 2]\<rparr>) \<and>
   SortByOption stdEnv (directOpt\<lparr>SrcFile := ''dst'', DstFile := ''out''\<rparr>)
     (snd (SortByOption stdEnv directOpt (oneFile [CHR ''#'', NL, CHR ''b'', NL]))) =
     (Some (Wrapf ErrEOF ''fd %s read offset %d'' [S ''dst'', D 1]),
      \<lparr>resolve = (\<lambda>p. p),
       files = Map.empty(''src'' \<mapsto> [CHR ''#'', NL, CHR ''b'', NL],
                          ''dst'' \<mapsto> [NL, CHR ''b''], ''out'' \<mapsto> [NL]),
       events = [EvOpen ''src'', EvCreate ''dst'', EvReadAt ''src'' 1 2,
                 EvOpen ''dst'', EvCreate ''out'', EvReadAt ''dst'' 0 1,
                 EvReadAt ''dst'' 1 2]\<rparr>)"
  by (simp add: scanLoop.simps eval_defs)

subsection \<open>A destination that is the source under another name\<close>

text \<open>
  The check of the paths compares their spelling. When the destination path is spelled
  otherwise and names the file of the source, \<^verbatim>\<open>os.Create\<close> truncates that file, the
  first read of the second pass finds no bytes, and the call returns an error with the
  file left empty.
\<close>

lemma linked_destination_truncates_source:
  "SortByOption stdEnv (directOpt\<lparr>DstFile := ''link''\<rparr>) (linkedFile [CHR ''b'', NL]) =
     (Some (Wrapf ErrEOF ''fd %s read offset %d'' [S ''src'', D 0]),
      \<lparr>resolve = (\<lambda>p. if p = ''link'' then ''src'' else p),
       files = Map.empty(''src'' \<mapsto> []),
       events = [EvOpen ''src'', EvCreate ''link'', EvReadAt ''src'' 0 2]\<rparr>)"
  by (simp add: scanLoop.simps linkedFile_def eval_defs)

end
